theory Spec2Isabelle
  imports Complex_Main
begin

section \<open>The unmanaged population manager (experiments/unmanaged/manager.py)\<close>

text \<open>
  A shallow embedding of \<^verbatim>\<open>OnlineIndividual\<close> and \<^verbatim>\<open>Population\<close>.
  Conventions:
  \<^item> A Python float is read as the real number it denotes (finite values only), so comparing
    two floats is comparing two reals. Float arithmetic is not the reals' arithmetic: its results
    are rounded, and they are taken from the \<open>ports\<close> (see \<open>float_mul\<close> and its siblings below).
    A float literal that binary64 cannot hold exactly stands for the binary64 value Python reads
    it as. Python ints are \<open>int\<close>, list lengths \<open>nat\<close>.
  \<^item> Python objects are references (\<open>ref\<close>) into a store \<open>objs\<close>; lists of individuals
    are lists of references, so \<^verbatim>\<open>is\<close> is equality of references and a mutation through one
    alias is seen through every other.
  \<^item> Every raise is a value: a stateful operation returns \<open>(error + value) \<times> state\<close>, the state
    being the one reached when the operation returned or raised (mutations made before a raise
    persist, as in Python).
  \<^item> The collaborators that are not part of manager.py (genotype operators, the simulator's reply
    to an insertion, the random generator, the rounded results of float operations and the
    difference of two simulator times) are the fields of a \<open>ports\<close> record that every
    operation takes as a parameter; calls made on the simulator connection, the exports and the
    log lines are recorded in the state in the order they are made.
  \<^item> An \<^verbatim>\<open>await\<close> is a plain call: nothing else runs meanwhile, and what a handle reports
    does not change while a phase runs. The phenotype (\<^verbatim>\<open>develop\<close>, \<^verbatim>\<open>update_substrate\<close>, the
    battery level) is left out: nothing below reads it.
\<close>

subsection \<open>Constants\<close>

definition ROBOT_BATTERY :: real where "ROBOT_BATTERY = 5000"
definition INDIVIDUAL_MAX_AGE :: real where "INDIVIDUAL_MAX_AGE = 60 * 2"
definition INDIVIDUAL_MAX_AGE_SIGMA :: real where "INDIVIDUAL_MAX_AGE_SIGMA = 1"
definition SEED_POPULATION_START :: int where "SEED_POPULATION_START = 50"
definition MIN_POP :: int where "MIN_POP = 20"
definition MAX_POP :: nat where "MAX_POP = 100"
definition Z_SPAWN_DISTANCE :: real where "Z_SPAWN_DISTANCE = 5 / 10"
definition LIMIT_X :: real where "LIMIT_X = 4"
definition LIMIT_Y :: real where "LIMIT_Y = 4"
definition MATURE_AGE :: real where "MATURE_AGE = 30"
definition MATE_DISTANCE :: real where "MATE_DISTANCE = 5404319552844595 / 9007199254740992"
definition MATING_COOLDOWN :: real where "MATING_COOLDOWN = 10"
definition COUPLE_MATING_LIMIT :: int where "COUPLE_MATING_LIMIT = 5"
definition MATING_INCREASE_RATE :: real where "MATING_INCREASE_RATE = 1"

text \<open>
  \<open>MATE_DISTANCE\<close> is the binary64 value of the literal \<^verbatim>\<open>0.6\<close>, and \<open>ONE_TENTH\<close> that of the
  literal \<^verbatim>\<open>0.1\<close> in the default \<^verbatim>\<open>distance=MATE_DISTANCE + 0.1\<close>; every other constant is held
  exactly.
\<close>

definition ONE_TENTH :: real where "ONE_TENTH = 3602879701896397 / 36028797018963968"

subsection \<open>Data\<close>

type_synonym ref = nat

datatype error =
  TypeError | AttributeError | ValueError | ZeroDivisionError | NoPositionFound | BreakIt

datatype Vector3 = Vector3 (vx: real) (vy: real) (vz: real)

text \<open>
  Modelled from the spec: the vector library (\<^verbatim>\<open>pyrevolve.SDF.math.Vector3\<close>) is not part of
  manager.py. Its difference and its norm are taken to be the Euclidean ones that the docstring
  of \<^verbatim>\<open>distance_to\<close> and the spec name.
\<close>

definition vsub :: "Vector3 \<Rightarrow> Vector3 \<Rightarrow> Vector3" where
  "vsub p q = Vector3 (vx p - vx q) (vy p - vy q) (vz p - vz q)"

definition vnorm :: "Vector3 \<Rightarrow> real" where
  "vnorm v = sqrt ((vx v)\<^sup>2 + (vy v)\<^sup>2 + (vz v)\<^sup>2)"

text \<open>
  The simulator handle (\<^verbatim>\<open>individual.manager\<close>). \<open>m_age\<close> and \<open>m_charge\<close> are what
  \<^verbatim>\<open>manager.age()\<close> and \<^verbatim>\<open>manager.charge()\<close> return; the other fields are the attributes
  manager.py reads or writes.
\<close>

record RobotManager =
  name :: string
  m_age :: real
  m_charge :: real
  starting_position :: Vector3
  last_position :: Vector3
  last_update :: real
  last_mate :: "real option"
  mated_with :: "string \<rightharpoonup> int"
  dead :: bool

record 'g Genotype =
  genotype_id :: "int option"
  genes :: 'g

record 'g OnlineIndividual =
  genotype :: "'g Genotype"
  manager :: "RobotManager option"
  max_age :: real

text \<open>
  \<^verbatim>\<open>OnlineIndividual.__init__(self, genotype, max_age)\<close>: both parameters are required, so
  a call that passes no \<^verbatim>\<open>max_age\<close> (the second argument \<open>None\<close> here) raises TypeError.
\<close>

definition OnlineIndividual_init :: "'g Genotype \<Rightarrow> real option \<Rightarrow> error + 'g OnlineIndividual" where
  "OnlineIndividual_init g max_age_arg =
     (case max_age_arg of
        None \<Rightarrow> Inl TypeError
      | Some a \<Rightarrow> Inr \<lparr>genotype = g, manager = None, max_age = a\<rparr>)"

definition age :: "'g OnlineIndividual \<Rightarrow> real" where
  "age self = (case manager self of Some m \<Rightarrow> m_age m | None \<Rightarrow> 0)"

definition charge :: "'g OnlineIndividual \<Rightarrow> real" where
  "charge self = (case manager self of Some m \<Rightarrow> m_charge m | None \<Rightarrow> 0)"

definition pos :: "'g OnlineIndividual \<Rightarrow> Vector3 option" where
  "pos self = (case manager self of Some m \<Rightarrow> Some (last_position m) | None \<Rightarrow> None)"

text \<open>
  \<^verbatim>\<open>distance_to(self, other, planar)\<close>: \<open>other\<close> is a position or an individual. The
  subtraction raises TypeError when either position is \<^verbatim>\<open>None\<close> (an individual without a
  handle).
\<close>

datatype 'g target = At Vector3 | Of "'g OnlineIndividual"

definition distance_to :: "'g OnlineIndividual \<Rightarrow> 'g target \<Rightarrow> bool \<Rightarrow> error + real" where
  "distance_to self other planar =
     (let my_pos = pos self;
          other_pos = (case other of At v \<Rightarrow> Some v | Of i \<Rightarrow> pos i)
      in case my_pos of
           None \<Rightarrow> Inl TypeError
         | Some p \<Rightarrow>
            (case other_pos of
               None \<Rightarrow> Inl TypeError
             | Some q \<Rightarrow>
                (let diff = vsub p q;
                     diff = (if planar then Vector3 (vx diff) (vy diff) 0 else diff)
                 in Inr (vnorm diff))))"

subsection \<open>Collaborators and float arithmetic\<close>

text \<open>
  The ports: \<open>uniform P k a b\<close> and \<open>gauss P k mu sigma\<close> are what the \<open>k\<close>-th call to the random
  module returns; \<open>insert_robot P k pos life\<close> is the handle the simulator returns for the call
  \<^verbatim>\<open>insert_robot(robot, pos, life)\<close> made after \<open>k\<close> earlier calls on the connection;
  \<open>round_add\<close>, \<open>round_sub\<close>, \<open>round_mul\<close> and \<open>round_div\<close> are the rounded results of the four
  float operations; \<open>time_difference P t s\<close> is \<^verbatim>\<open>float(t - s)\<close> for two times of the simulator
  (their type is the simulator library's).
\<close>

record 'g ports =
  standard_crossover :: "'g Genotype list \<Rightarrow> 'g Genotype"
  standard_mutation :: "'g Genotype \<Rightarrow> 'g Genotype"
  random_initialization :: "int \<Rightarrow> 'g Genotype"
  uniform :: "nat \<Rightarrow> real \<Rightarrow> real \<Rightarrow> real"
  gauss :: "nat \<Rightarrow> real \<Rightarrow> real \<Rightarrow> real"
  insert_robot :: "nat \<Rightarrow> Vector3 \<Rightarrow> real \<Rightarrow> RobotManager"
  round_add :: "real \<Rightarrow> real \<Rightarrow> real"
  round_sub :: "real \<Rightarrow> real \<Rightarrow> real"
  round_mul :: "real \<Rightarrow> real \<Rightarrow> real"
  round_div :: "real \<Rightarrow> real \<Rightarrow> real"
  time_difference :: "real \<Rightarrow> real \<Rightarrow> real"

text \<open>
  Python's \<^verbatim>\<open>x + y\<close>, \<^verbatim>\<open>x - y\<close>, \<^verbatim>\<open>x * y\<close> and \<^verbatim>\<open>x / y\<close> on floats. The result is the rounded
  one the ports give. Two facts of binary64 arithmetic that hold for every operand are built in:
  multiplying and dividing by \<^verbatim>\<open>1.0\<close> return the operand unchanged. Dividing by zero raises
  ZeroDivisionError.
\<close>

definition float_add :: "'g ports \<Rightarrow> real \<Rightarrow> real \<Rightarrow> real" where
  "float_add P x y = round_add P x y"

definition float_sub :: "'g ports \<Rightarrow> real \<Rightarrow> real \<Rightarrow> real" where
  "float_sub P x y = round_sub P x y"

definition float_mul :: "'g ports \<Rightarrow> real \<Rightarrow> real \<Rightarrow> real" where
  "float_mul P x y = (if y = 1 then x else round_mul P x y)"

definition float_div :: "'g ports \<Rightarrow> real \<Rightarrow> real \<Rightarrow> error + real" where
  "float_div P x y =
     (if y = 0 then Inl ZeroDivisionError
      else if y = 1 then Inr x
      else Inr (round_div P x y))"

subsection \<open>Maturity and the mating gates\<close>

definition mature :: "'g OnlineIndividual \<Rightarrow> bool" where
  "mature self = (age self > MATURE_AGE)"

definition wants_to_mate ::
  "'g ports \<Rightarrow> 'g OnlineIndividual \<Rightarrow> 'g OnlineIndividual \<Rightarrow> real \<Rightarrow> error + bool" where
  "wants_to_mate P self other mating_multiplier =
     (if \<not> mature self then Inr False
      else
        (case distance_to self (Of other) True of
           Inl e \<Rightarrow> Inl e
         | Inr d \<Rightarrow>
            (if d > float_mul P MATE_DISTANCE mating_multiplier then Inr False
             else
               (case manager self of
                  None \<Rightarrow> Inl AttributeError
                | Some sm \<Rightarrow>
                   (if last_mate sm \<noteq> None \<and>
                       time_difference P (last_update sm) (the (last_mate sm)) < MATING_COOLDOWN
                    then Inr False
                    else
                      (case manager other of
                         None \<Rightarrow> Inl AttributeError
                       | Some om \<Rightarrow>
                          (let mate_count =
                                 (case mated_with sm (name om) of None \<Rightarrow> 0 | Some c \<Rightarrow> c)
                           in if mate_count > COUPLE_MATING_LIMIT then Inr False
                              else Inr True)))))))"

subsection \<open>State and collaborators\<close>

datatype level = DEBUG | INFO

datatype log_entry = Log level string "ref list"

datatype sim_call = Insert_robot ref Vector3 real | Unregister_robot string

datatype export_file = Genotype_file ref | Phenotype_file ref | Life_file ref

text \<open>
  The state: the object store (\<open>objs\<close>, \<open>next_ref\<close> the next unused reference), the number
  of calls made so far to the \<^verbatim>\<open>random\<close> module, and the attributes of \<^verbatim>\<open>Population\<close>
  (\<open>logged\<close>, \<open>data_folder\<close> and \<open>connection\<close> hold what was sent to \<^verbatim>\<open>_log\<close>, written
  under \<^verbatim>\<open>_data_folder\<close> and called on \<^verbatim>\<open>_connection\<close>).

\<close>

record 'g state =
  objs :: "ref \<Rightarrow> 'g OnlineIndividual"
  next_ref :: ref
  random_used :: nat
  robots :: "ref list"
  robot_id_counter :: int
  mating_multiplier :: real
  mating_increase_rate :: real
  recent_children :: "ref list"
  recent_children_start_time :: real
  recent_children_delta_time :: real
  logged :: "log_entry list"
  data_folder :: "export_file list"
  connection :: "sim_call list"

subsection \<open>Mating of two individuals\<close>

text \<open>Lines 161-166 of \<^verbatim>\<open>mate\<close>: the bookkeeping on \<^verbatim>\<open>self.manager\<close>.\<close>

definition save_mating :: "'g state \<Rightarrow> ref \<Rightarrow> ref \<Rightarrow> (error + unit) \<times> 'g state" where
  "save_mating st self other =
     (case manager (objs st self) of
        None \<Rightarrow> (Inl AttributeError, st)
      | Some sm \<Rightarrow>
         (let st1 = st\<lparr>objs := (objs st)(self := (objs st self)
                         \<lparr>manager := Some (sm\<lparr>last_mate := Some (last_update sm)\<rparr>)\<rparr>)\<rparr>
          in case manager (objs st1 other) of
               None \<Rightarrow> (Inl AttributeError, st1)
             | Some om \<Rightarrow>
                (case manager (objs st1 self) of
                   None \<Rightarrow> (Inl AttributeError, st1)
                 | Some sm1 \<Rightarrow>
                    (let count = (case mated_with sm1 (name om) of
                                    Some c \<Rightarrow> c + 1
                                  | None \<Rightarrow> 1)
                     in (Inr (), st1\<lparr>objs := (objs st1)(self := (objs st1 self)
                           \<lparr>manager := Some (sm1\<lparr>mated_with := (mated_with sm1)(name om \<mapsto> count)\<rparr>)\<rparr>)\<rparr>)))))"

definition mate :: "'g ports \<Rightarrow> 'g state \<Rightarrow> ref \<Rightarrow> ref \<Rightarrow> real \<Rightarrow> (error + ref option) \<times> 'g state" where
  "mate P st self other mating_distance_multiplier =
     (case wants_to_mate P (objs st self) (objs st other) mating_distance_multiplier of
        Inl e \<Rightarrow> (Inl e, st)
      | Inr False \<Rightarrow> (Inr None, st)
      | Inr True \<Rightarrow>
         (case wants_to_mate P (objs st other) (objs st self) mating_distance_multiplier of
            Inl e \<Rightarrow> (Inl e, st)
          | Inr False \<Rightarrow> (Inr None, st)
          | Inr True \<Rightarrow>
             (case save_mating st self other of
                (Inl e, st1) \<Rightarrow> (Inl e, st1)
              | (Inr _, st1) \<Rightarrow>
                 (let g = standard_crossover P [genotype (objs st1 self), genotype (objs st1 other)];
                      g = standard_mutation P g
                  in case OnlineIndividual_init g None of
                       Inl e \<Rightarrow> (Inl e, st1)
                     | Inr child \<Rightarrow>
                        (Inr (Some (next_ref st1)),
                         st1\<lparr>objs := (objs st1)(next_ref st1 := child),
                             next_ref := next_ref st1 + 1\<rparr>)))))"

subsection \<open>Spawn placement\<close>

definition random_spawn_pos :: "'g ports \<Rightarrow> 'g state \<Rightarrow> Vector3 \<times> 'g state" where
  "random_spawn_pos P st =
     (Vector3 (uniform P (random_used st) (- LIMIT_X) LIMIT_X)
              (uniform P (random_used st + 1) (- LIMIT_Y) LIMIT_Y)
              Z_SPAWN_DISTANCE,
      st\<lparr>random_used := random_used st + 2\<rparr>)"

fun is_pos_occupied_loop ::
  "(ref \<Rightarrow> 'g OnlineIndividual) \<Rightarrow> ref list \<Rightarrow> Vector3 \<Rightarrow> real \<Rightarrow> error + bool" where
  "is_pos_occupied_loop h [] p distance = Inr False"
| "is_pos_occupied_loop h (robot # rest) p distance =
     (case distance_to (h robot) (At p) True of
        Inl e \<Rightarrow> Inl e
      | Inr d \<Rightarrow> if d < distance then Inr True else is_pos_occupied_loop h rest p distance)"

definition is_pos_occupied :: "'g state \<Rightarrow> Vector3 \<Rightarrow> real \<Rightarrow> error + bool" where
  "is_pos_occupied st p distance = is_pos_occupied_loop (objs st) (robots st) p distance"

text \<open>
  The loop of \<^verbatim>\<open>_free_random_spawn_pos\<close>, entered with the candidate \<open>p\<close> drawn last and the
  counter \<open>i\<close>.
\<close>

function free_random_spawn_pos_loop ::
  "'g ports \<Rightarrow> 'g state \<Rightarrow> real \<Rightarrow> int \<Rightarrow> Vector3 \<Rightarrow> int \<Rightarrow> (error + Vector3) \<times> 'g state" where
  "free_random_spawn_pos_loop P st distance n_tries p i =
     (case is_pos_occupied st p distance of
        Inl e \<Rightarrow> (Inl e, st)
      | Inr occupied \<Rightarrow>
         if occupied then
           (if i + 1 > n_tries then (Inl NoPositionFound, st)
            else free_random_spawn_pos_loop P (snd (random_spawn_pos P st)) distance n_tries
                   (fst (random_spawn_pos P st)) (i + 1))
         else (Inr p, st))"
  by pat_completeness auto
termination
  by (relation "measure (\<lambda>(P, st, distance, n_tries, p, i). nat (n_tries - i))") auto

declare free_random_spawn_pos_loop.simps [simp del]

definition free_random_spawn_pos ::
  "'g ports \<Rightarrow> 'g state \<Rightarrow> real \<Rightarrow> int \<Rightarrow> (error + Vector3) \<times> 'g state" where
  "free_random_spawn_pos P st distance n_tries =
     free_random_spawn_pos_loop P (snd (random_spawn_pos P st)) distance n_tries
       (fst (random_spawn_pos P st)) 1"

text \<open>
  The \<open>k\<close>-th candidate (counted from 0) that a placement started in state \<open>st\<close> draws, and the
  spec's rejection test: the candidate is closer than \<open>d\<close>, in the plane, to the last known
  position of some live agent.
\<close>

definition candidate :: "'g ports \<Rightarrow> 'g state \<Rightarrow> nat \<Rightarrow> Vector3" where
  "candidate P st k = fst (random_spawn_pos P (st\<lparr>random_used := random_used st + 2 * k\<rparr>))"

definition near_live_agent :: "'g state \<Rightarrow> Vector3 \<Rightarrow> real \<Rightarrow> bool" where
  "near_live_agent st p d =
     list_ex (\<lambda>r. case manager (objs st r) of
                    None \<Rightarrow> False
                  | Some m \<Rightarrow>
                     sqrt ((vx (last_position m) - vx p)\<^sup>2 + (vy (last_position m) - vy p)\<^sup>2) < d)
       (robots st)"

definition all_managed :: "'g state \<Rightarrow> bool" where
  "all_managed st = list_all (\<lambda>r. manager (objs st r) \<noteq> None) (robots st)"

text \<open>
  A live list is well formed when each of its individuals has a handle and was allocated in the
  store (its reference is below \<open>next_ref\<close>).
\<close>

definition live_wf :: "'g state \<Rightarrow> bool" where
  "live_wf st = list_all (\<lambda>r. manager (objs st r) \<noteq> None \<and> r < next_ref st) (robots st)"

subsection \<open>Insertion and removal\<close>

text \<open>
  \<^verbatim>\<open>export\<close> writes the genotype, the phenotype and the life record, in this order; the life
  record reads attributes of the handle, so it raises AttributeError on an individual without one.
\<close>

definition export :: "'g state \<Rightarrow> ref \<Rightarrow> (error + unit) \<times> 'g state" where
  "export st individual =
     (let st1 = st\<lparr>data_folder := data_folder st @ [Genotype_file individual, Phenotype_file individual]\<rparr>
      in case manager (objs st1 individual) of
           None \<Rightarrow> (Inl AttributeError, st1)
         | Some m \<Rightarrow> (Inr (), st1\<lparr>data_folder := data_folder st1 @ [Life_file individual]\<rparr>))"

definition insert_individual ::
  "'g ports \<Rightarrow> 'g state \<Rightarrow> ref \<Rightarrow> Vector3 \<Rightarrow> (error + ref) \<times> 'g state" where
  "insert_individual P st individual p =
     (let life = max_age (objs st individual);
          m = insert_robot P (length (connection st)) p life;
          st1 = st\<lparr>connection := connection st @ [Insert_robot individual p life]\<rparr>;
          st2 = st1\<lparr>objs := (objs st1)(individual := (objs st1 individual)\<lparr>manager := Some m\<rparr>)\<rparr>
      in case export st2 individual of
           (Inl e, st3) \<Rightarrow> (Inl e, st3)
         | (Inr _, st3) \<Rightarrow> (Inr individual, st3))"

definition remove_individual :: "'g state \<Rightarrow> ref \<Rightarrow> (error + unit) \<times> 'g state" where
  "remove_individual st individual =
     (if individual \<notin> set (robots st) then (Inl ValueError, st)
      else
        (let st1 = st\<lparr>robots := remove1 individual (robots st)\<rparr>
         in case export st1 individual of
              (Inl e, st2) \<Rightarrow> (Inl e, st2)
            | (Inr _, st2) \<Rightarrow>
               (case manager (objs st2 individual) of
                  None \<Rightarrow> (Inl AttributeError, st2)
                | Some m \<Rightarrow>
                   (Inr (), st2\<lparr>connection := connection st2 @ [Unregister_robot (name m)]\<rparr>))))"

definition generate_insert_random_robot ::
  "'g ports \<Rightarrow> 'g state \<Rightarrow> int \<Rightarrow> (error + ref) \<times> 'g state" where
  "generate_insert_random_robot P st new_id =
     (let g = random_initialization P new_id;
          a = gauss P (random_used st) INDIVIDUAL_MAX_AGE INDIVIDUAL_MAX_AGE_SIGMA;
          st1 = st\<lparr>random_used := random_used st + 1\<rparr>
      in case OnlineIndividual_init g (Some a) of
           Inl e \<Rightarrow> (Inl e, st1)
         | Inr obj \<Rightarrow>
            (let individual = next_ref st1;
                 st2 = st1\<lparr>objs := (objs st1)(individual := obj), next_ref := next_ref st1 + 1\<rparr>
             in case free_random_spawn_pos P st2 (float_add P MATE_DISTANCE ONE_TENTH) 100 of
                  (Inl e, st3) \<Rightarrow> (Inl e, st3)
                | (Inr p, st3) \<Rightarrow> insert_individual P st3 individual p))"

subsection \<open>Population: construction and the death phase\<close>

text \<open>
  \<^verbatim>\<open>Population.__init__\<close> sets the attributes of the population; the store and the random
  generator are those of the state \<open>w\<close> it is created in.
\<close>

definition Population_init ::
  "'g state \<Rightarrow> log_entry list \<Rightarrow> export_file list \<Rightarrow> sim_call list \<Rightarrow> 'g state" where
  "Population_init w l d c =
     w\<lparr>logged := l, data_folder := d, connection := c,
       robots := [], robot_id_counter := 0,
       mating_multiplier := 1, mating_increase_rate := MATING_INCREASE_RATE,
       recent_children := [], recent_children_start_time := - 1,
       recent_children_delta_time := 30\<rparr>"

definition log_line :: "level \<Rightarrow> string \<Rightarrow> ref list \<Rightarrow> 'g state \<Rightarrow> 'g state" where
  "log_line lv msg about st = st\<lparr>logged := logged st @ [Log lv msg about]\<rparr>"

text \<open>
  The body of the \<^verbatim>\<open>for\<close> loop of \<^verbatim>\<open>death_season\<close> at index \<open>i\<close> of the live list. The loop
  runs over \<^verbatim>\<open>self._robots\<close> itself: Python's list iterator keeps an index and compares it
  with the current length at every step.
\<close>

definition death_season_step :: "'g state \<Rightarrow> nat \<Rightarrow> (error + unit) \<times> 'g state" where
  "death_season_step st i =
     (let individual = robots st ! i
      in case manager (objs st individual) of
           None \<Rightarrow> (Inl AttributeError, st)
         | Some m \<Rightarrow>
            (if dead m then
               (case remove_individual
                       (log_line DEBUG ''Attempting ROBOT DIES OF OLD AGE'' [individual] st)
                       individual of
                  (Inl e, st1) \<Rightarrow> (Inl e, st1)
                | (Inr _, st1) \<Rightarrow>
                   (Inr (), log_line INFO ''ROBOT DIES OF OLD AGE'' [individual] st1))
             else (Inr (), st)))"

lemma export_robots: "export st r = (res, st') \<Longrightarrow> robots st' = robots st"
  by (auto simp: export_def Let_def split: option.splits)

lemma remove_individual_robots:
  "remove_individual st r = (res, st') \<Longrightarrow>
     robots st' = (if r \<in> set (robots st) then remove1 r (robots st) else robots st)"
  by (auto simp: remove_individual_def Let_def split: prod.splits sum.splits option.splits if_splits
           dest: export_robots)

lemma remove_individual_length:
  "length (robots (snd (remove_individual st r))) \<le> length (robots st)"
  using remove_individual_robots[of st r "fst (remove_individual st r)" "snd (remove_individual st r)"]
  by (simp add: length_remove1)

lemma death_season_step_length:
  "length (robots (snd (death_season_step st i))) \<le> length (robots st)"
proof (cases "manager (objs st (robots st ! i))")
  case None
  then show ?thesis
    by (simp add: death_season_step_def)
next
  case (Some m)
  let ?st = "log_line DEBUG ''Attempting ROBOT DIES OF OLD AGE'' [robots st ! i] st"
  have "length (robots (snd (remove_individual ?st (robots st ! i)))) \<le> length (robots st)"
    using remove_individual_length[of ?st "robots st ! i"] by (simp add: log_line_def)
  with Some show ?thesis
    by (cases "remove_individual ?st (robots st ! i)")
       (auto simp: death_season_step_def log_line_def Let_def split: sum.splits)
qed

function death_season_loop :: "'g state \<Rightarrow> nat \<Rightarrow> (error + unit) \<times> 'g state" where
  "death_season_loop st i =
     (if i < length (robots st) then
        (case fst (death_season_step st i) of
           Inl e \<Rightarrow> death_season_step st i
         | Inr _ \<Rightarrow> death_season_loop (snd (death_season_step st i)) (i + 1))
      else (Inr (), st))"
  by pat_completeness auto
termination
proof (relation "measure (\<lambda>(st, i). length (robots st) - i)")
  show "wf (measure (\<lambda>(st, i). length (robots st) - i))"
    by simp
next
  fix st :: "'g state" and i :: nat and u :: unit
  assume "i < length (robots st)"
  then show "((snd (death_season_step st i), i + 1), (st, i))
               \<in> measure (\<lambda>(st, i). length (robots st) - i)"
    using death_season_step_length[of st i] by simp
qed

declare death_season_loop.simps [simp del]

definition death_season :: "'g state \<Rightarrow> (error + unit) \<times> 'g state" where
  "death_season st = death_season_loop st 0"

subsection \<open>The immigration phase\<close>

text \<open>One pass through the body of the \<^verbatim>\<open>while\<close> loop of \<^verbatim>\<open>immigration_season\<close>.\<close>

definition immigration_season_step :: "'g ports \<Rightarrow> 'g state \<Rightarrow> (error + unit) \<times> 'g state" where
  "immigration_season_step P st =
     (let st1 = st\<lparr>robot_id_counter := robot_id_counter st + 1\<rparr>;
          st2 = log_line DEBUG ''Attempting LOW REACHED'' [] st1
      in case generate_insert_random_robot P st2 (robot_id_counter st2) of
           (Inl e, st3) \<Rightarrow> (if e = NoPositionFound then (Inr (), st3) else (Inl e, st3))
         | (Inr individual, st3) \<Rightarrow>
            (let st4 = log_line INFO ''LOW REACHED: inserting new random robot'' [individual] st3
             in (Inr (), st4\<lparr>robots := robots st4 @ [individual]\<rparr>)))"

text \<open>
  The loop may run forever (placement can fail at every attempt), so it is given fuel: the
  number of passes it may make. \<open>None\<close> says that the fuel ran out before the loop ended.
\<close>

fun immigration_season ::
  "nat \<Rightarrow> 'g ports \<Rightarrow> 'g state \<Rightarrow> int \<Rightarrow> ((error + unit) \<times> 'g state) option" where
  "immigration_season 0 P st population_minimum =
     (if int (length (robots st)) < population_minimum then None else Some (Inr (), st))"
| "immigration_season (Suc fuel) P st population_minimum =
     (if int (length (robots st)) < population_minimum then
        (case fst (immigration_season_step P st) of
           Inl e \<Rightarrow> Some (immigration_season_step P st)
         | Inr _ \<Rightarrow> immigration_season fuel P (snd (immigration_season_step P st)) population_minimum)
      else Some (Inr (), st))"

subsection \<open>The mating controller\<close>

definition adjust_mating_multiplier ::
  "'g ports \<Rightarrow> 'g state \<Rightarrow> real \<Rightarrow> (error + unit) \<times> 'g state" where
  "adjust_mating_multiplier P st time =
     (if recent_children_start_time st < 0 then
        (Inr (), st\<lparr>recent_children_start_time := time\<rparr>)
      else if float_sub P time (recent_children_start_time st) > recent_children_delta_time st then
        (let st1 = st\<lparr>recent_children_start_time := time\<rparr>;
             n = length (recent_children st1);
             r = (if n < 3 then
                    (Inr (),
                     log_line INFO ''NOT ENOUGH CHILDREN, increasing the range'' []
                       (st1\<lparr>mating_multiplier :=
                              float_mul P (mating_multiplier st1) (mating_increase_rate st1)\<rparr>))
                  else if n > 10 then
                    (case float_div P (mating_multiplier st1) (mating_increase_rate st1) of
                       Inl e \<Rightarrow> (Inl e, st1)
                     | Inr q \<Rightarrow>
                        (Inr (),
                         log_line INFO ''TOO MANY CHILDREN,   decreasing the range'' []
                           (st1\<lparr>mating_multiplier := q\<rparr>)))
                  else (Inr (), st1))
         in case fst r of
              Inl e \<Rightarrow> r
            | Inr _ \<Rightarrow> (Inr (), (snd r)\<lparr>recent_children := []\<rparr>))
      else (Inr (), st))"

text \<open>
  A run of the controller: a list of calls, each with the time passed to
  \<^verbatim>\<open>adjust_mating_multiplier\<close> and the contents \<^verbatim>\<open>_recent_children\<close> has when the call is made
  (whatever the phases before it left there).
\<close>

fun adjust_calls ::
  "'g ports \<Rightarrow> 'g state \<Rightarrow> (ref list \<times> real) list \<Rightarrow> (error + unit) \<times> 'g state" where
  "adjust_calls P st [] = (Inr (), st)"
| "adjust_calls P st ((children, time) # rest) =
     (case adjust_mating_multiplier P (st\<lparr>recent_children := children\<rparr>) time of
        (Inl e, st1) \<Rightarrow> (Inl e, st1)
      | (Inr _, st1) \<Rightarrow> adjust_calls P st1 rest)"

subsection \<open>The mating phase\<close>

text \<open>
  \<open>mating_offspring\<close> is the block of \<^verbatim>\<open>mating_season\<close> that runs once \<^verbatim>\<open>mate\<close> has returned
  an individual (lines 362-377), \<open>register_offspring\<close> being its first three statements, those
  before the placement is tried (lines 362-365); \<open>mating_pair\<close> is the whole body of the inner loop for one
  ordered pair; \<open>mating_inner\<close> and \<open>mating_outer\<close> are the two \<^verbatim>\<open>for\<close> loops, which run over
  \<^verbatim>\<open>self._robots\<close> itself by index, so that an individual appended during the scan is visited
  by it. BreakIt is the exception the phase raises to leave both loops.
\<close>


definition register_offspring :: "'g state \<Rightarrow> ref \<Rightarrow> 'g state" where
  "register_offspring st individual3 =
     (let st1 = st\<lparr>recent_children := recent_children st @ [individual3]\<rparr>;
          st2 = st1\<lparr>robot_id_counter := robot_id_counter st1 + 1\<rparr>
      in st2\<lparr>objs := (objs st2)(individual3 := (objs st2 individual3)
                \<lparr>genotype := (genotype (objs st2 individual3))
                   \<lparr>genotype_id := Some (robot_id_counter st2)\<rparr>\<rparr>)\<rparr>)"

definition mating_offspring ::
  "'g ports \<Rightarrow> 'g state \<Rightarrow> ref \<Rightarrow> ref \<Rightarrow> ref \<Rightarrow> (error + unit) \<times> 'g state" where
  "mating_offspring P st individual1 individual2 individual3 =
     (case free_random_spawn_pos P (register_offspring st individual3) (float_add P MATE_DISTANCE ONE_TENTH) 100 of
        (Inl e, st4) \<Rightarrow>
          (if e = NoPositionFound then
             (Inr (), log_line INFO
                ''Space is too crowded! Cannot insert the new individual, giving up.'' [] st4)
           else (Inl e, st4))
      | (Inr pos3, st4) \<Rightarrow>
          (let st5 = st4\<lparr>robots := robots st4 @ [individual3]\<rparr>;
               st6 = log_line DEBUG ''Attempting mate'' [individual1, individual2, individual3] st5
           in case insert_individual P st6 individual3 pos3 of
                (Inl e, st7) \<Rightarrow> (Inl e, st7)
              | (Inr _, st7) \<Rightarrow>
                 (Inr (), log_line INFO ''MATE!!!!'' [individual1, individual2, individual3] st7)))"

definition mating_pair :: "'g ports \<Rightarrow> 'g state \<Rightarrow> ref \<Rightarrow> ref \<Rightarrow> (error + unit) \<times> 'g state" where
  "mating_pair P st individual1 individual2 =
     (if length (robots st) > MAX_POP then (Inl BreakIt, st)
      else if individual1 = individual2 then (Inr (), st)
      else
        (case mate P st individual1 individual2 (mating_multiplier st) of
           (Inl e, st1) \<Rightarrow> (Inl e, st1)
         | (Inr individual3, st1) \<Rightarrow>
            (case individual3 of
               None \<Rightarrow> (Inr (), st1)
             | Some child \<Rightarrow> mating_offspring P st1 individual1 individual2 child)))"

lemma random_spawn_pos_robots [simp]: "robots (snd (random_spawn_pos P st)) = robots st"
  by (simp add: random_spawn_pos_def)

lemma free_random_spawn_pos_loop_robots:
  "robots (snd (free_random_spawn_pos_loop P st d n p i)) = robots st"
proof (induction P st d n p i rule: free_random_spawn_pos_loop.induct)
  case (1 P st d n p i)
  show ?case
    by (subst free_random_spawn_pos_loop.simps) (auto split: sum.splits simp: 1)
qed

lemma free_random_spawn_pos_robots:
  "free_random_spawn_pos P st d n = (res, st') \<Longrightarrow> robots st' = robots st"
  using free_random_spawn_pos_loop_robots[of P "snd (random_spawn_pos P st)" d n "fst (random_spawn_pos P st)" 1]
  by (simp add: free_random_spawn_pos_def)

lemma insert_individual_robots:
  "insert_individual P st r p = (res, st') \<Longrightarrow> robots st' = robots st"
  by (auto simp: insert_individual_def Let_def split: prod.splits sum.splits dest!: export_robots)

lemma save_mating_robots: "save_mating st a b = (res, st') \<Longrightarrow> robots st' = robots st"
  by (auto simp: save_mating_def Let_def split: option.splits)

lemma mate_robots: "mate P st a b m = (res, st') \<Longrightarrow> robots st' = robots st"
  by (auto simp: mate_def Let_def OnlineIndividual_init_def split: sum.splits bool.splits prod.splits
           dest!: save_mating_robots)

lemma mating_offspring_robots:
  "mating_offspring P st a b c = (res, st') \<Longrightarrow>
     robots st' = robots st \<or> robots st' = robots st @ [c]"
  by (auto simp: mating_offspring_def register_offspring_def Let_def log_line_def
           split: prod.splits sum.splits if_splits
           dest!: free_random_spawn_pos_robots insert_individual_robots)

lemma mating_pair_robots:
  "mating_pair P st a b = (res, st') \<Longrightarrow>
     robots st' = robots st \<or>
     (length (robots st) \<le> MAX_POP \<and> (\<exists>c. robots st' = robots st @ [c]))"
  by (auto simp: mating_pair_def split: if_splits prod.splits sum.splits option.splits
           dest!: mate_robots mating_offspring_robots)

lemma mating_pair_continue:
  "mating_pair P st a b = (Inr u, st') \<Longrightarrow> length (robots st) \<le> MAX_POP"
  by (auto simp: mating_pair_def split: if_splits)

function mating_inner :: "'g ports \<Rightarrow> 'g state \<Rightarrow> ref \<Rightarrow> nat \<Rightarrow> (error + unit) \<times> 'g state" where
  "mating_inner P st individual1 j =
     (if j < length (robots st) then
        (case fst (mating_pair P st individual1 (robots st ! j)) of
           Inl e \<Rightarrow> mating_pair P st individual1 (robots st ! j)
         | Inr _ \<Rightarrow>
            mating_inner P (snd (mating_pair P st individual1 (robots st ! j))) individual1 (j + 1))
      else (Inr (), st))"
  by pat_completeness auto
termination
proof (relation "measure (\<lambda>(P, st, a, j). (MAX_POP + 1 - length (robots st)) + (length (robots st) - j))")
  show "wf (measure (\<lambda>(P, st, a, j). (MAX_POP + 1 - length (robots st)) + (length (robots st) - j)))"
    by simp
next
  fix P :: "'g ports" and st :: "'g state" and individual1 j :: nat and u :: unit
  assume j: "j < length (robots st)"
    and ok: "fst (mating_pair P st individual1 (robots st ! j)) = Inr u"
  obtain st' where r: "mating_pair P st individual1 (robots st ! j) = (Inr u, st')"
    using ok by (cases "mating_pair P st individual1 (robots st ! j)") simp
  have cap: "length (robots st) \<le> MAX_POP"
    using mating_pair_continue[OF r] .
  have "length (robots st') = length (robots st) \<or> length (robots st') = length (robots st) + 1"
    using mating_pair_robots[OF r] by auto
  then show "((P, snd (mating_pair P st individual1 (robots st ! j)), individual1, j + 1),
              (P, st, individual1, j))
             \<in> measure (\<lambda>(P, st, a, j). (MAX_POP + 1 - length (robots st)) + (length (robots st) - j))"
    using j cap r by auto
qed

declare mating_inner.simps [simp del]

lemma mating_pair_length:
  "length (robots st) \<le> length (robots (snd (mating_pair P st a b))) \<and>
   length (robots (snd (mating_pair P st a b))) \<le> max (length (robots st)) (MAX_POP + 1)"
  using mating_pair_robots[of P st a b "fst (mating_pair P st a b)" "snd (mating_pair P st a b)"]
  by auto

lemma mating_inner_length:
  "length (robots st) \<le> length (robots (snd (mating_inner P st a j))) \<and>
   length (robots (snd (mating_inner P st a j))) \<le> max (length (robots st)) (MAX_POP + 1)"
proof (induction P st a j rule: mating_inner.induct)
  case (1 P st a j)
  show ?case
  proof (cases "j < length (robots st)")
    case False
    then show ?thesis
      by (subst mating_inner.simps, subst mating_inner.simps) simp
  next
    case True
    note j = this
    let ?r = "mating_pair P st a (robots st ! j)"
    show ?thesis
    proof (cases "fst ?r")
      case (Inl e)
      then have "mating_inner P st a j = ?r"
        using j by (subst mating_inner.simps) simp
      then show ?thesis
        using mating_pair_length[of st P a "robots st ! j"] by simp
    next
      case (Inr u)
      then have eq: "mating_inner P st a j = mating_inner P (snd ?r) a (j + 1)"
        using j by (subst mating_inner.simps) simp
      have ih: "length (robots (snd ?r)) \<le> length (robots (snd (mating_inner P (snd ?r) a (j + 1)))) \<and>
                length (robots (snd (mating_inner P (snd ?r) a (j + 1))))
                  \<le> max (length (robots (snd ?r))) (MAX_POP + 1)"
        using "1.IH"[OF j Inr] .
      show ?thesis
        unfolding eq using ih mating_pair_length[of st P a "robots st ! j"] by linarith
    qed
  qed
qed

lemma mating_inner_continue:
  assumes "fst (mating_inner P st a j) = Inr u" and "j < length (robots st)"
  shows "length (robots st) \<le> MAX_POP"
proof -
  let ?r = "mating_pair P st a (robots st ! j)"
  have "\<exists>v. fst ?r = Inr v"
  proof (cases "fst ?r")
    case (Inl e)
    then have "mating_inner P st a j = ?r"
      using assms(2) by (subst mating_inner.simps) simp
    with assms(1) Inl show ?thesis by simp
  next
    case (Inr v)
    then show ?thesis by blast
  qed
  then obtain v where "fst ?r = Inr v" by blast
  then have "?r = (Inr v, snd ?r)"
    by (cases ?r) simp
  then show ?thesis
    by (rule mating_pair_continue)
qed

function mating_outer :: "'g ports \<Rightarrow> 'g state \<Rightarrow> nat \<Rightarrow> (error + unit) \<times> 'g state" where
  "mating_outer P st i =
     (if i < length (robots st) then
        (if \<not> mature (objs st (robots st ! i)) then mating_outer P st (i + 1)
         else
           (case fst (mating_inner P st (robots st ! i) 0) of
              Inl e \<Rightarrow> mating_inner P st (robots st ! i) 0
            | Inr _ \<Rightarrow> mating_outer P (snd (mating_inner P st (robots st ! i) 0)) (i + 1)))
      else (Inr (), st))"
  by pat_completeness auto
termination
proof (relation "measure (\<lambda>(P, st, i). (MAX_POP + 1 - length (robots st)) + (length (robots st) - i))")
  show "wf (measure (\<lambda>(P, st, i). (MAX_POP + 1 - length (robots st)) + (length (robots st) - i)))"
    by simp
next
  fix P :: "'g ports" and st :: "'g state" and i :: nat
  assume "i < length (robots st)"
  then show "((P, st, i + 1), (P, st, i))
       \<in> measure (\<lambda>(P, st, i). (MAX_POP + 1 - length (robots st)) + (length (robots st) - i))"
    by simp
next
  fix P :: "'g ports" and st :: "'g state" and i :: nat and u :: unit
  assume i: "i < length (robots st)"
    and ok: "fst (mating_inner P st (robots st ! i) 0) = Inr u"
  let ?st = "snd (mating_inner P st (robots st ! i) 0)"
  have "0 < length (robots st)"
    using i by linarith
  then have cap: "length (robots st) \<le> MAX_POP"
    by (rule mating_inner_continue[OF ok])
  have "length (robots st) \<le> length (robots ?st)" "length (robots ?st) \<le> MAX_POP + 1"
    using mating_inner_length[of st P "robots st ! i" 0] cap by simp_all
  then show "((P, ?st, i + 1), (P, st, i))
       \<in> measure (\<lambda>(P, st, i). (MAX_POP + 1 - length (robots st)) + (length (robots st) - i))"
    using i cap by simp
qed

declare mating_outer.simps [simp del]

definition mating_season :: "'g ports \<Rightarrow> 'g state \<Rightarrow> (error + unit) \<times> 'g state" where
  "mating_season P st =
     (let r = (if length (robots st) > MAX_POP then (Inl BreakIt, st) else mating_outer P st 0)
      in case fst r of
           Inl e \<Rightarrow> if e = BreakIt then (Inr (), snd r) else r
         | Inr _ \<Rightarrow> r)"

subsection \<open>Concrete scenarios\<close>

text \<open>
  Fixtures on which the theorems below are exercised: a handle of a mature robot, an individual
  around a handle, collaborators whose random draws are all \<open>0\<close> (every candidate position is
  \<open>(0, 0, 0.5)\<close>), and a population built by \<open>Population_init\<close> over a given store and live list.
  The float operations of these collaborators are the exact ones: the scenarios below only
  operate on small integers and halves, where the exact result is a binary64 value and so is the
  result binary64 arithmetic gives.
\<close>

definition demo_manager :: "string \<Rightarrow> Vector3 \<Rightarrow> bool \<Rightarrow> RobotManager" where
  "demo_manager n p d =
     \<lparr>name = n, m_age = 40, m_charge = 0, starting_position = p, last_position = p,
      last_update = 100, last_mate = None, mated_with = Map.empty, dead = d\<rparr>"

definition demo_individual :: "RobotManager option \<Rightarrow> unit OnlineIndividual" where
  "demo_individual m = \<lparr>genotype = \<lparr>genotype_id = None, genes = ()\<rparr>, manager = m, max_age = 120\<rparr>"

definition demo_ports :: "unit ports" where
  "demo_ports =
     \<lparr>standard_crossover = (\<lambda>gs. \<lparr>genotype_id = None, genes = ()\<rparr>),
      standard_mutation = (\<lambda>g. g),
      random_initialization = (\<lambda>i. \<lparr>genotype_id = Some i, genes = ()\<rparr>),
      uniform = (\<lambda>k a b. 0),
      gauss = (\<lambda>k mu sigma. mu),
      insert_robot = (\<lambda>k p life. demo_manager ''robot'' p False),
      round_add = (+), round_sub = (-), round_mul = (*), round_div = (/),
      time_difference = (-)\<rparr>"

definition demo_state :: "(ref \<Rightarrow> unit OnlineIndividual) \<Rightarrow> ref list \<Rightarrow> unit state" where
  "demo_state h rs =
     (Population_init
        \<lparr>objs = h, next_ref = 100, random_used = 0, robots = [], robot_id_counter = 0,
         mating_multiplier = 0, mating_increase_rate = 0, recent_children = [],
         recent_children_start_time = 0, recent_children_delta_time = 0,
         logged = [], data_folder = [], connection = []\<rparr> [] [] [])\<lparr>robots := rs\<rparr>"

text \<open>Two mature robots, \<open>a\<close> (reference 0) and \<open>b\<close> (reference 1), at the same place.\<close>

definition demo_pair :: "bool \<Rightarrow> ref \<Rightarrow> unit OnlineIndividual" where
  "demo_pair d r =
     (if r = 0 then demo_individual (Some (demo_manager ''a'' (Vector3 0 0 0) d))
      else if r = 1 then demo_individual (Some (demo_manager ''b'' (Vector3 0 0 0) d))
      else demo_individual None)"


lemma demo_state_simps [simp]:
  "objs (demo_state h rs) = h"
  "robots (demo_state h rs) = rs"
  "recent_children (demo_state h rs) = []"
  "mating_multiplier (demo_state h rs) = 1"
  "mating_increase_rate (demo_state h rs) = 1"
  "random_used (demo_state h rs) = 0"
  "connection (demo_state h rs) = []"
  "data_folder (demo_state h rs) = []"
  "logged (demo_state h rs) = []"
  "robot_id_counter (demo_state h rs) = 0"
  "next_ref (demo_state h rs) = 100"
  by (simp_all add: demo_state_def Population_init_def MATING_INCREASE_RATE_def)

section \<open>Properties\<close>

subsection \<open>Mating of two individuals\<close>

lemma wants_to_mate_manager:
  "wants_to_mate P self other m = Inr True \<Longrightarrow> \<exists>sm. manager self = Some sm"
  by (cases "manager self") (simp_all add: wants_to_mate_def mature_def age_def MATURE_AGE_def)

lemma save_mating_ok:
  assumes "manager (objs st a) = Some sm" "manager (objs st b) = Some om" "a \<noteq> b"
  shows "save_mating st a b = (Inr (),
     st\<lparr>objs := (objs st)(a := (objs st a)\<lparr>manager := Some (sm\<lparr>last_mate := Some (last_update sm),
         mated_with := (mated_with sm)(name om \<mapsto> (case mated_with sm (name om) of None \<Rightarrow> 0 | Some c \<Rightarrow> c) + 1)\<rparr>)\<rparr>)\<rparr>)"
  using assms by (simp add: save_mating_def Let_def split: option.splits)

lemma mate_gate_passes:
  assumes "wants_to_mate P (objs st a) (objs st b) m = Inr True"
      and "wants_to_mate P (objs st b) (objs st a) m = Inr True"
  shows "mate P st a b m = (Inl TypeError, snd (save_mating st a b))"
proof -
  obtain sm where sm: "manager (objs st a) = Some sm"
    using wants_to_mate_manager[OF assms(1)] by blast
  obtain om where om: "manager (objs st b) = Some om"
    using wants_to_mate_manager[OF assms(2)] by blast
  have "fst (save_mating st a b) = Inr ()"
    using sm om by (simp add: save_mating_def Let_def split: option.splits)
  then show ?thesis using assms
    by (auto simp: mate_def OnlineIndividual_init_def Let_def split: prod.splits sum.splits)
qed

lemma demo_pair_wants:
  "wants_to_mate demo_ports (demo_pair False 0) (demo_pair False (Suc 0)) 1 = Inr True"
  "wants_to_mate demo_ports (demo_pair False (Suc 0)) (demo_pair False 0) 1 = Inr True"
  by (simp_all add: wants_to_mate_def mature_def age_def distance_to_def pos_def vsub_def vnorm_def
        demo_pair_def demo_individual_def demo_manager_def MATURE_AGE_def MATE_DISTANCE_def float_mul_def
        MATING_COOLDOWN_def COUPLE_MATING_LIMIT_def)



text \<open>
  Claim C8. When \<^verbatim>\<open>mate(A, B, m)\<close> passes the mutual gate, for two distinct individuals, the
  state it leaves differs from the one it started in only in the handle of \<open>A\<close>: its
  \<^verbatim>\<open>last_mate\<close> is its \<^verbatim>\<open>last_update\<close> (the time of the current tick) and its count for the
  name of \<open>B\<close> is one more than before (1 when there was none). \<open>B\<close> is left as it was.
  (These writes are made before the last line of \<^verbatim>\<open>mate\<close> raises, see claim C1, and they
  stay.)
\<close>

theorem mate_bookkeeping_one_sided:
  assumes "wants_to_mate P (objs st a) (objs st b) m = Inr True"
      and "wants_to_mate P (objs st b) (objs st a) m = Inr True"
      and "a \<noteq> b"
  shows "\<exists>sm om.
           manager (objs st a) = Some sm \<and> manager (objs st b) = Some om \<and>
           snd (mate P st a b m) =
             st\<lparr>objs := (objs st)(a := (objs st a)
                   \<lparr>manager := Some (sm
                      \<lparr>last_mate := Some (last_update sm),
                       mated_with := (mated_with sm)
                         (name om \<mapsto> (case mated_with sm (name om) of None \<Rightarrow> 0 | Some c \<Rightarrow> c) + 1)\<rparr>)\<rparr>)\<rparr> \<and>
           objs (snd (mate P st a b m)) b = objs st b"
proof -
  obtain sm where sm: "manager (objs st a) = Some sm"
    using wants_to_mate_manager[OF assms(1)] by blast
  obtain om where om: "manager (objs st b) = Some om"
    using wants_to_mate_manager[OF assms(2)] by blast
  have "snd (mate P st a b m) = snd (save_mating st a b)"
    using mate_gate_passes[OF assms(1,2)] by simp
  then show ?thesis
    using sm om assms(3) save_mating_ok[OF sm om assms(3)] by simp
qed

theorem mate_bookkeeping_one_sided_witness:
  "(\<exists>sm'. manager (objs (snd (mate demo_ports (demo_state (demo_pair False) [0, 1]) 0 1 1)) 0) = Some sm' \<and>
      last_mate sm' = Some 100 \<and> mated_with sm' ''b'' = Some 1) \<and>
   objs (snd (mate demo_ports (demo_state (demo_pair False) [0, 1]) 0 1 1)) 1 = demo_pair False 1"
proof -
  let ?st = "demo_state (demo_pair False) [0, 1]"
  have 1: "wants_to_mate demo_ports (objs ?st 0) (objs ?st 1) 1 = Inr True"
    and 2: "wants_to_mate demo_ports (objs ?st 1) (objs ?st 0) 1 = Inr True"
    using demo_pair_wants by simp_all
  have 3: "(0::nat) \<noteq> 1" by simp
  show ?thesis
    using mate_bookkeeping_one_sided[OF 1 2 3]
    by (auto simp: demo_pair_def demo_individual_def demo_manager_def)
qed

text \<open>
  Claim C1. When both directions of \<^verbatim>\<open>_wants_to_mate\<close> hold, \<^verbatim>\<open>mate\<close> does not return an
  individual: the call \<^verbatim>\<open>OnlineIndividual(genotype)\<close> on its last line omits the required
  \<^verbatim>\<open>max_age\<close>, so \<^verbatim>\<open>mate\<close> raises TypeError (after the bookkeeping of claim C8 was done).
  When one direction returns \<^verbatim>\<open>False\<close>, \<^verbatim>\<open>mate\<close> returns \<^verbatim>\<open>None\<close> and leaves the state as it
  was.
\<close>

theorem mate_raises_on_mutual_consent:
  "(wants_to_mate P (objs st a) (objs st b) m = Inr True \<and>
    wants_to_mate P (objs st b) (objs st a) m = Inr True \<longrightarrow>
      fst (mate P st a b m) = Inl TypeError) \<and>
   (wants_to_mate P (objs st a) (objs st b) m = Inr False \<or>
    (wants_to_mate P (objs st a) (objs st b) m = Inr True \<and>
     wants_to_mate P (objs st b) (objs st a) m = Inr False) \<longrightarrow>
      mate P st a b m = (Inr None, st))"
proof (intro conjI impI)
  assume "wants_to_mate P (objs st a) (objs st b) m = Inr True \<and>
          wants_to_mate P (objs st b) (objs st a) m = Inr True"
  then show "fst (mate P st a b m) = Inl TypeError"
    using mate_gate_passes[of P st a b m] by simp
next
  assume "wants_to_mate P (objs st a) (objs st b) m = Inr False \<or>
          (wants_to_mate P (objs st a) (objs st b) m = Inr True \<and>
           wants_to_mate P (objs st b) (objs st a) m = Inr False)"
  then show "mate P st a b m = (Inr None, st)"
    by (auto simp: mate_def)
qed

theorem mate_raises_on_mutual_consent_witness:
  "fst (mate demo_ports (demo_state (demo_pair False) [0, 1]) 0 1 1) = Inl TypeError \<and>
   mate demo_ports (demo_state (demo_pair False) [0, 1]) 2 1 1 =
     (Inr None, demo_state (demo_pair False) [0, 1])"
proof -
  let ?st = "demo_state (demo_pair False) [0, 1]"
  have 1: "wants_to_mate demo_ports (objs ?st 0) (objs ?st 1) 1 = Inr True"
    and 2: "wants_to_mate demo_ports (objs ?st 1) (objs ?st 0) 1 = Inr True"
    using demo_pair_wants by simp_all
  have 3: "wants_to_mate demo_ports (objs ?st 2) (objs ?st 1) 1 = Inr False"
    by (simp add: wants_to_mate_def mature_def age_def demo_pair_def demo_individual_def
          MATURE_AGE_def)
  show ?thesis
    using mate_raises_on_mutual_consent[of demo_ports ?st 0 1 1]
          mate_raises_on_mutual_consent[of demo_ports ?st 2 1 1] 1 2 3
    by simp
qed

subsection \<open>The mating controller\<close>

text \<open>
  Claim C5, as amended. On the first call (the window has not started: the start time is
  negative) \<^verbatim>\<open>adjust_mating_multiplier\<close> records the start time and changes nothing else. Once
  the window has started and the difference between the time and the start, as the program
  computes it, exceeds the window length, with \<open>n\<close> the number of recent children: if \<open>n < 3\<close> the
  multiplier becomes the float product of itself and the increase rate; if \<open>n > 10\<close> and the rate
  is not zero it becomes the float quotient of itself by the rate; if \<open>3 \<le> n \<le> 10\<close> it is
  unchanged; in these three cases the start time becomes the current time and the recent
  children are cleared. If \<open>n > 10\<close> and the rate is zero the division raises ZeroDivisionError:
  the start time has become the current time, the multiplier and the recent children are as
  they were. While the difference does not exceed the window length nothing changes.
\<close>

theorem adjust_mating_multiplier_window:
  "(recent_children_start_time st < 0 \<longrightarrow>
      adjust_mating_multiplier P st time = (Inr (), st\<lparr>recent_children_start_time := time\<rparr>)) \<and>
   (\<not> recent_children_start_time st < 0 \<and>
    float_sub P time (recent_children_start_time st) > recent_children_delta_time st \<longrightarrow>
      (length (recent_children st) < 3 \<longrightarrow>
         fst (adjust_mating_multiplier P st time) = Inr () \<and>
         mating_multiplier (snd (adjust_mating_multiplier P st time)) =
           float_mul P (mating_multiplier st) (mating_increase_rate st) \<and>
         recent_children_start_time (snd (adjust_mating_multiplier P st time)) = time \<and>
         recent_children (snd (adjust_mating_multiplier P st time)) = []) \<and>
      (length (recent_children st) > 10 \<and> mating_increase_rate st \<noteq> 0 \<longrightarrow>
         fst (adjust_mating_multiplier P st time) = Inr () \<and>
         Inr (mating_multiplier (snd (adjust_mating_multiplier P st time))) =
           float_div P (mating_multiplier st) (mating_increase_rate st) \<and>
         recent_children_start_time (snd (adjust_mating_multiplier P st time)) = time \<and>
         recent_children (snd (adjust_mating_multiplier P st time)) = []) \<and>
      (length (recent_children st) > 10 \<and> mating_increase_rate st = 0 \<longrightarrow>
         fst (adjust_mating_multiplier P st time) = Inl ZeroDivisionError \<and>
         mating_multiplier (snd (adjust_mating_multiplier P st time)) = mating_multiplier st \<and>
         recent_children_start_time (snd (adjust_mating_multiplier P st time)) = time \<and>
         recent_children (snd (adjust_mating_multiplier P st time)) = recent_children st) \<and>
      (3 \<le> length (recent_children st) \<and> length (recent_children st) \<le> 10 \<longrightarrow>
         fst (adjust_mating_multiplier P st time) = Inr () \<and>
         mating_multiplier (snd (adjust_mating_multiplier P st time)) = mating_multiplier st \<and>
         recent_children_start_time (snd (adjust_mating_multiplier P st time)) = time \<and>
         recent_children (snd (adjust_mating_multiplier P st time)) = [])) \<and>
   (\<not> recent_children_start_time st < 0 \<and>
    \<not> float_sub P time (recent_children_start_time st) > recent_children_delta_time st \<longrightarrow>
      adjust_mating_multiplier P st time = (Inr (), st))"
  by (simp add: adjust_mating_multiplier_def Let_def log_line_def float_div_def)

lemma adjust_rate_one:
  assumes "mating_increase_rate st = 1"
  shows "fst (adjust_mating_multiplier P st time) = Inr () \<and>
         mating_multiplier (snd (adjust_mating_multiplier P st time)) = mating_multiplier st \<and>
         mating_increase_rate (snd (adjust_mating_multiplier P st time)) = 1"
  using assms
  by (simp add: adjust_mating_multiplier_def Let_def log_line_def float_mul_def float_div_def)

lemma adjust_calls_rate_one:
  "mating_increase_rate st = 1 \<Longrightarrow>
     fst (adjust_calls P st calls) = Inr () \<and>
     mating_multiplier (snd (adjust_calls P st calls)) = mating_multiplier st \<and>
     mating_increase_rate (snd (adjust_calls P st calls)) = 1"
proof (induction calls arbitrary: st)
  case Nil
  then show ?case by simp
next
  case (Cons c calls)
  obtain children time where c: "c = (children, time)"
    by (cases c)
  let ?st = "st\<lparr>recent_children := children\<rparr>"
  have r: "mating_increase_rate ?st = 1"
    using Cons.prems by simp
  obtain u st1 where a: "adjust_mating_multiplier P ?st time = (Inr u, st1)"
    using adjust_rate_one[OF r, of P time]
    by (cases "adjust_mating_multiplier P ?st time") auto
  have st1: "mating_multiplier st1 = mating_multiplier st" "mating_increase_rate st1 = 1"
    using adjust_rate_one[OF r, of P time] a by simp_all
  show ?case
    using Cons.IH[OF st1(2)] st1(1) by (simp add: c a)
qed

theorem adjust_mating_multiplier_window_witness:
  "adjust_mating_multiplier demo_ports (demo_state (demo_pair False) []) 5 =
     (Inr (), (demo_state (demo_pair False) [])\<lparr>recent_children_start_time := 5\<rparr>) \<and>
   mating_multiplier (snd (adjust_mating_multiplier demo_ports
      ((demo_state (demo_pair False) [])
         \<lparr>recent_children_start_time := 0, mating_multiplier := 3, mating_increase_rate := 2\<rparr>) 31)) = 6 \<and>
   mating_multiplier (snd (adjust_mating_multiplier demo_ports
      ((demo_state (demo_pair False) [])
         \<lparr>recent_children_start_time := 0, mating_multiplier := 3, mating_increase_rate := 2,
          recent_children := replicate 15 7\<rparr>) 31)) = 3 / 2 \<and>
   mating_multiplier (snd (adjust_mating_multiplier demo_ports
      ((demo_state (demo_pair False) [])
         \<lparr>recent_children_start_time := 0, mating_multiplier := 3, mating_increase_rate := 2,
          recent_children := replicate 5 7\<rparr>) 31)) = 3 \<and>
   recent_children (snd (adjust_mating_multiplier demo_ports
      ((demo_state (demo_pair False) [])
         \<lparr>recent_children_start_time := 0, mating_multiplier := 3, mating_increase_rate := 2,
          recent_children := replicate 5 7\<rparr>) 31)) = [] \<and>
   fst (adjust_mating_multiplier demo_ports
      ((demo_state (demo_pair False) [])
         \<lparr>recent_children_start_time := 0, mating_multiplier := 3, mating_increase_rate := 0,
          recent_children := replicate 15 7\<rparr>) 31) = Inl ZeroDivisionError \<and>
   adjust_mating_multiplier demo_ports
      ((demo_state (demo_pair False) [])\<lparr>recent_children_start_time := 0\<rparr>) 30 =
     (Inr (), (demo_state (demo_pair False) [])\<lparr>recent_children_start_time := 0\<rparr>)"
  using adjust_mating_multiplier_window[of "demo_state (demo_pair False) []" demo_ports 5]
        adjust_mating_multiplier_window[of "(demo_state (demo_pair False) [])
         \<lparr>recent_children_start_time := 0, mating_multiplier := 3, mating_increase_rate := 2\<rparr>"
         demo_ports 31]
        adjust_mating_multiplier_window[of "(demo_state (demo_pair False) [])
         \<lparr>recent_children_start_time := 0, mating_multiplier := 3, mating_increase_rate := 2,
          recent_children := replicate 15 7\<rparr>" demo_ports 31]
        adjust_mating_multiplier_window[of "(demo_state (demo_pair False) [])
         \<lparr>recent_children_start_time := 0, mating_multiplier := 3, mating_increase_rate := 2,
          recent_children := replicate 5 7\<rparr>" demo_ports 31]
        adjust_mating_multiplier_window[of "(demo_state (demo_pair False) [])
         \<lparr>recent_children_start_time := 0, mating_multiplier := 3, mating_increase_rate := 0,
          recent_children := replicate 15 7\<rparr>" demo_ports 31]
        adjust_mating_multiplier_window[of
         "(demo_state (demo_pair False) [])\<lparr>recent_children_start_time := 0\<rparr>" demo_ports 30]
  by (simp add: demo_state_def Population_init_def demo_ports_def float_sub_def float_mul_def
        float_div_def)

text \<open>
  Claim C5 as stated fails in the branch \<open>n > 10\<close> at increase rate 0: with the window started at
  0, the call made at time 31 and 11 recent children, the division raises ZeroDivisionError
  once the start time has been reset, so the recent children are not cleared and no quotient
  is stored.
\<close>

theorem adjust_mating_multiplier_zero_rate:
  "fst (adjust_mating_multiplier demo_ports
      ((demo_state (demo_pair False) [])
         \<lparr>recent_children_start_time := 0, mating_increase_rate := 0,
          recent_children := replicate 11 7\<rparr>) 31) = Inl ZeroDivisionError \<and>
   recent_children (snd (adjust_mating_multiplier demo_ports
      ((demo_state (demo_pair False) [])
         \<lparr>recent_children_start_time := 0, mating_increase_rate := 0,
          recent_children := replicate 11 7\<rparr>) 31)) = replicate 11 7 \<and>
   recent_children_start_time (snd (adjust_mating_multiplier demo_ports
      ((demo_state (demo_pair False) [])
         \<lparr>recent_children_start_time := 0, mating_increase_rate := 0,
          recent_children := replicate 11 7\<rparr>) 31)) = 31"
  by (simp add: adjust_mating_multiplier_def Let_def float_sub_def float_div_def demo_ports_def
        demo_state_def Population_init_def)

text \<open>
  Claim C10. With the shipped MATING_INCREASE_RATE = 1, a call of
  \<^verbatim>\<open>adjust_mating_multiplier\<close> returns with the multiplier it started with, whatever the time
  and the recent children; and over every run of calls on a population as
  \<^verbatim>\<open>Population.__init__\<close> creates it, the multiplier stays 1. (Multiplying and dividing a float
  by \<^verbatim>\<open>1.0\<close> are exact, whatever the rounding of the other products and quotients.)
\<close>

theorem multiplier_constant_at_shipped_rate:
  "(mating_increase_rate st = 1 \<longrightarrow>
      fst (adjust_mating_multiplier P st time) = Inr () \<and>
      mating_multiplier (snd (adjust_mating_multiplier P st time)) = mating_multiplier st) \<and>
   mating_increase_rate (Population_init w l d c) = 1 \<and>
   fst (adjust_calls P (Population_init w l d c) calls) = Inr () \<and>
   mating_multiplier (snd (adjust_calls P (Population_init w l d c) calls)) = 1"
proof -
  have r: "mating_increase_rate (Population_init w l d c) = 1"
    by (simp add: Population_init_def MATING_INCREASE_RATE_def)
  have m: "mating_multiplier (Population_init w l d c) = 1"
    by (simp add: Population_init_def)
  show ?thesis
    using adjust_rate_one[of st P time] adjust_calls_rate_one[OF r, of P calls] r m by simp
qed

theorem multiplier_constant_at_shipped_rate_witness:
  "mating_increase_rate (demo_state (demo_pair False) []) = 1 \<and>
   mating_multiplier (snd (adjust_mating_multiplier demo_ports (demo_state (demo_pair False) []) 5)) = 1 \<and>
   mating_multiplier (snd (adjust_calls demo_ports
      (Population_init (demo_state (demo_pair False) []) [] [] [])
      [([], 0), ([], 31), (replicate 15 7, 62), ([], 100)])) = 1"
  using multiplier_constant_at_shipped_rate
          [of "demo_state (demo_pair False) []" demo_ports 5 "demo_state (demo_pair False) []"
              "[]" "[]" "[]" "[([], 0), ([], 31), (replicate 15 7, 62), ([], 100)]"]
  by simp

subsection \<open>Spawn placement\<close>

lemma is_pos_occupied_loop_managed:
  "list_all (\<lambda>r. manager (h r) \<noteq> None) rs \<Longrightarrow>
     is_pos_occupied_loop h rs p d =
       Inr (list_ex (\<lambda>r. case manager (h r) of
                            None \<Rightarrow> False
                          | Some m \<Rightarrow>
                             sqrt ((vx (last_position m) - vx p)\<^sup>2 +
                                   (vy (last_position m) - vy p)\<^sup>2) < d) rs)"
  by (induction rs) (auto simp: distance_to_def pos_def vsub_def vnorm_def Let_def)

lemma is_pos_occupied_managed:
  "all_managed st \<Longrightarrow> is_pos_occupied st p d = Inr (near_live_agent st p d)"
  by (simp add: all_managed_def is_pos_occupied_def near_live_agent_def is_pos_occupied_loop_managed)

lemma is_pos_occupied_random_used [simp]:
  "is_pos_occupied (st\<lparr>random_used := u\<rparr>) p d = is_pos_occupied st p d"
  by (simp add: is_pos_occupied_def)

lemma random_spawn_pos_snd: "snd (random_spawn_pos P st) = st\<lparr>random_used := random_used st + 2\<rparr>"
  by (simp add: random_spawn_pos_def)

lemma random_spawn_pos_fst: "fst (random_spawn_pos P st) = candidate P st 0"
  by (simp add: candidate_def)

lemma candidate_shift:
  "candidate P (st\<lparr>random_used := random_used st + 2\<rparr>) k = candidate P st (Suc k)"
  "candidate P (st\<lparr>random_used := Suc (Suc (random_used st))\<rparr>) k = candidate P st (Suc k)"
  by (simp_all add: candidate_def random_spawn_pos_def)

lemma loop_free:
  "is_pos_occupied st p d = Inr False \<Longrightarrow> free_random_spawn_pos_loop P st d n p i = (Inr p, st)"
  by (subst free_random_spawn_pos_loop.simps) simp

lemma loop_exhausted:
  "is_pos_occupied st p d = Inr True \<Longrightarrow>
   (\<forall>k<m. is_pos_occupied st (candidate P st k) d = Inr True) \<Longrightarrow>
   n = i + int m \<Longrightarrow>
   free_random_spawn_pos_loop P st d n p i =
     (Inl NoPositionFound, st\<lparr>random_used := random_used st + 2 * m\<rparr>)"
proof (induction m arbitrary: st p i)
  case 0
  then show ?case
    by (subst free_random_spawn_pos_loop.simps) simp
next
  case (Suc m)
  let ?st = "st\<lparr>random_used := random_used st + 2\<rparr>"
  have occ0: "is_pos_occupied ?st (candidate P st 0) d = Inr True"
    using Suc.prems(2) by simp
  have occ: "\<forall>k<m. is_pos_occupied ?st (candidate P ?st k) d = Inr True"
    using Suc.prems(2) by (simp add: candidate_shift)
  have n: "n = (i + 1) + int m"
    using Suc.prems(3) by simp
  have "free_random_spawn_pos_loop P st d n p i =
          free_random_spawn_pos_loop P ?st d n (candidate P st 0) (i + 1)"
    using Suc.prems(1) n
    by (subst free_random_spawn_pos_loop.simps)
       (simp add: random_spawn_pos_snd random_spawn_pos_fst)
  also have "\<dots> = (Inl NoPositionFound, ?st\<lparr>random_used := random_used ?st + 2 * m\<rparr>)"
    by (rule Suc.IH[OF occ0 occ n])
  finally show ?case
    by simp
qed

lemma loop_first_free:
  "is_pos_occupied st p d = Inr True \<Longrightarrow>
   (\<forall>j<k. is_pos_occupied st (candidate P st j) d = Inr True) \<Longrightarrow>
   is_pos_occupied st (candidate P st k) d = Inr False \<Longrightarrow>
   i + 1 + int k \<le> n \<Longrightarrow>
   free_random_spawn_pos_loop P st d n p i =
     (Inr (candidate P st k), st\<lparr>random_used := random_used st + 2 * (k + 1)\<rparr>)"
proof (induction k arbitrary: st p i)
  case 0
  let ?st = "st\<lparr>random_used := random_used st + 2\<rparr>"
  have "free_random_spawn_pos_loop P st d n p i =
          free_random_spawn_pos_loop P ?st d n (candidate P st 0) (i + 1)"
    using "0.prems"(1,4)
    by (subst free_random_spawn_pos_loop.simps)
       (simp add: random_spawn_pos_snd random_spawn_pos_fst)
  also have "\<dots> = (Inr (candidate P st 0), ?st)"
    using "0.prems"(3) by (intro loop_free) simp
  finally show ?case
    by simp
next
  case (Suc k)
  let ?st = "st\<lparr>random_used := random_used st + 2\<rparr>"
  have occ0: "is_pos_occupied ?st (candidate P st 0) d = Inr True"
    using Suc.prems(2) by simp
  have occ: "\<forall>j<k. is_pos_occupied ?st (candidate P ?st j) d = Inr True"
    using Suc.prems(2) by (simp add: candidate_shift)
  have free: "is_pos_occupied ?st (candidate P ?st k) d = Inr False"
    using Suc.prems(3) by (simp add: candidate_shift)
  have n: "(i + 1) + 1 + int k \<le> n"
    using Suc.prems(4) by simp
  have "free_random_spawn_pos_loop P st d n p i =
          free_random_spawn_pos_loop P ?st d n (candidate P st 0) (i + 1)"
    using Suc.prems(1) n
    by (subst free_random_spawn_pos_loop.simps)
       (simp add: random_spawn_pos_snd random_spawn_pos_fst)
  also have "\<dots> = (Inr (candidate P ?st k), ?st\<lparr>random_used := random_used ?st + 2 * (k + 1)\<rparr>)"
    by (rule Suc.IH[OF occ0 occ free n])
  finally show ?case
    by (simp add: candidate_shift)
qed

lemma free_random_spawn_pos_exhausted:
  assumes "\<forall>k<Suc m. is_pos_occupied st (candidate P st k) d = Inr True"
      and "n = 1 + int m"
  shows "free_random_spawn_pos P st d n =
           (Inl NoPositionFound, st\<lparr>random_used := random_used st + 2 * Suc m\<rparr>)"
proof -
  let ?st = "st\<lparr>random_used := random_used st + 2\<rparr>"
  have occ0: "is_pos_occupied ?st (candidate P st 0) d = Inr True"
    using assms(1) by simp
  have occ: "\<forall>k<m. is_pos_occupied ?st (candidate P ?st k) d = Inr True"
    using assms(1) by (simp add: candidate_shift)
  show ?thesis
    using loop_exhausted[OF occ0 occ assms(2)]
    by (simp add: free_random_spawn_pos_def random_spawn_pos_snd random_spawn_pos_fst)
qed

lemma free_random_spawn_pos_first_free:
  assumes "\<forall>j<k. is_pos_occupied st (candidate P st j) d = Inr True"
      and "is_pos_occupied st (candidate P st k) d = Inr False"
      and "int k < n"
  shows "free_random_spawn_pos P st d n =
           (Inr (candidate P st k), st\<lparr>random_used := random_used st + 2 * (k + 1)\<rparr>)"
proof (cases k)
  case 0
  let ?st = "st\<lparr>random_used := random_used st + 2\<rparr>"
  have "is_pos_occupied ?st (candidate P st 0) d = Inr False"
    using assms(2) 0 by simp
  then show ?thesis
    using 0 by (simp add: free_random_spawn_pos_def random_spawn_pos_snd random_spawn_pos_fst loop_free)
next
  case (Suc k')
  let ?st = "st\<lparr>random_used := random_used st + 2\<rparr>"
  have occ0: "is_pos_occupied ?st (candidate P st 0) d = Inr True"
    using assms(1) Suc by simp
  have occ: "\<forall>j<k'. is_pos_occupied ?st (candidate P ?st j) d = Inr True"
    using assms(1) Suc by (simp add: candidate_shift)
  have free: "is_pos_occupied ?st (candidate P ?st k') d = Inr False"
    using assms(2) Suc by (simp add: candidate_shift)
  have n: "1 + 1 + int k' \<le> n"
    using assms(3) Suc by simp
  show ?thesis
    using loop_first_free[OF occ0 occ free n] Suc
    by (simp add: free_random_spawn_pos_def random_spawn_pos_snd random_spawn_pos_fst candidate_shift)
qed

lemma free_random_spawn_pos_nonpositive:
  "n \<le> 1 \<Longrightarrow> free_random_spawn_pos P st d n = free_random_spawn_pos P st d 1"
  unfolding free_random_spawn_pos_def
  by (subst free_random_spawn_pos_loop.simps, subst (2) free_random_spawn_pos_loop.simps)
     (simp split: sum.splits)

text \<open>
  Claim C4, as amended. Let every live agent have a handle (a last known position), and read
  "within" as "closer than". For \<open>n_tries \<ge> 1\<close>: if each of the first \<open>n_tries\<close> candidates is
  closer than \<open>d\<close> to some live agent, \<^verbatim>\<open>_free_random_spawn_pos\<close> raises NoPositionFound having
  drawn exactly \<open>n_tries\<close> candidates (two random numbers each); and if the \<open>k\<close>-th candidate,
  \<open>k < n_tries\<close>, is the first at distance \<open>\<ge> d\<close> from every live agent, that candidate is
  returned, \<open>k + 1\<close> candidates having been drawn. For \<open>n_tries \<le> 0\<close> the call behaves as for
  \<open>n_tries = 1\<close>: one candidate is always drawn.
\<close>

theorem free_random_spawn_pos_tries:
  "(all_managed st \<and> 1 \<le> n_tries \<and>
      (\<forall>k<nat n_tries. near_live_agent st (candidate P st k) d) \<longrightarrow>
        free_random_spawn_pos P st d n_tries =
          (Inl NoPositionFound, st\<lparr>random_used := random_used st + 2 * nat n_tries\<rparr>)) \<and>
   (all_managed st \<and> int k < n_tries \<and>
      (\<forall>j<k. near_live_agent st (candidate P st j) d) \<and>
      \<not> near_live_agent st (candidate P st k) d \<longrightarrow>
        free_random_spawn_pos P st d n_tries =
          (Inr (candidate P st k), st\<lparr>random_used := random_used st + 2 * (k + 1)\<rparr>)) \<and>
   (n_tries \<le> 0 \<longrightarrow> free_random_spawn_pos P st d n_tries = free_random_spawn_pos P st d 1)"
proof (intro conjI impI)
  assume a: "all_managed st \<and> 1 \<le> n_tries \<and>
      (\<forall>k<nat n_tries. near_live_agent st (candidate P st k) d)"
  then obtain m where m: "nat n_tries = Suc m"
    by (cases "nat n_tries") auto
  have n: "n_tries = 1 + int m"
    using m a by linarith
  have "\<forall>k<Suc m. is_pos_occupied st (candidate P st k) d = Inr True"
    using a m by (simp add: is_pos_occupied_managed)
  then show "free_random_spawn_pos P st d n_tries =
          (Inl NoPositionFound, st\<lparr>random_used := random_used st + 2 * nat n_tries\<rparr>)"
    using free_random_spawn_pos_exhausted[OF _ n, of st P d] m by simp
next
  assume a: "all_managed st \<and> int k < n_tries \<and>
      (\<forall>j<k. near_live_agent st (candidate P st j) d) \<and>
      \<not> near_live_agent st (candidate P st k) d"
  have 1: "\<forall>j<k. is_pos_occupied st (candidate P st j) d = Inr True"
    using a by (simp add: is_pos_occupied_managed)
  have 2: "is_pos_occupied st (candidate P st k) d = Inr False"
    using a by (simp add: is_pos_occupied_managed)
  show "free_random_spawn_pos P st d n_tries =
          (Inr (candidate P st k), st\<lparr>random_used := random_used st + 2 * (k + 1)\<rparr>)"
    using free_random_spawn_pos_first_free[OF 1 2] a by simp
next
  assume "n_tries \<le> 0"
  then show "free_random_spawn_pos P st d n_tries = free_random_spawn_pos P st d 1"
    by (intro free_random_spawn_pos_nonpositive) simp
qed

lemma demo_candidate [simp]: "candidate demo_ports st k = Vector3 0 0 (1 / 2)"
  by (simp add: candidate_def random_spawn_pos_def demo_ports_def Z_SPAWN_DISTANCE_def)

lemma demo_pair_occupied:
  "h 0 = demo_pair d 0 \<Longrightarrow>
   is_pos_occupied_loop h (0 # rs) (Vector3 0 0 (1 / 2)) (7 / 10) = Inr True"
  by (simp add: distance_to_def pos_def vsub_def vnorm_def demo_pair_def demo_individual_def
        demo_manager_def)

theorem free_random_spawn_pos_tries_witness:
  "free_random_spawn_pos demo_ports (demo_state (demo_pair False) [0, 1]) (7 / 10) 3 =
     (Inl NoPositionFound, (demo_state (demo_pair False) [0, 1])\<lparr>random_used := 6\<rparr>) \<and>
   free_random_spawn_pos demo_ports
       (demo_state (\<lambda>r. demo_individual (Some (demo_manager ''far'' (Vector3 1 0 0) False))) [0])
       (7 / 10) 3 =
     (Inr (Vector3 0 0 (1 / 2)),
      (demo_state (\<lambda>r. demo_individual (Some (demo_manager ''far'' (Vector3 1 0 0) False))) [0])
        \<lparr>random_used := 2\<rparr>) \<and>
   free_random_spawn_pos demo_ports (demo_state (demo_pair False) [0, 1]) (7 / 10) (- 4) =
     free_random_spawn_pos demo_ports (demo_state (demo_pair False) [0, 1]) (7 / 10) 1"
proof -
  let ?near = "demo_state (demo_pair False) [0, 1]"
  let ?far = "demo_state (\<lambda>r. demo_individual (Some (demo_manager ''far'' (Vector3 1 0 0) False))) [0]"
  have m1: "all_managed ?near"
    by (simp add: all_managed_def demo_pair_def demo_individual_def)
  have n1: "\<forall>k<nat 3. near_live_agent ?near (candidate demo_ports ?near k) (7 / 10)"
    by (simp add: near_live_agent_def demo_pair_def demo_individual_def demo_manager_def)
  have m2: "all_managed ?far"
    by (simp add: all_managed_def demo_individual_def)
  have n2: "\<not> near_live_agent ?far (candidate demo_ports ?far 0) (7 / 10)"
    by (simp add: near_live_agent_def demo_individual_def demo_manager_def)
  show ?thesis
    using free_random_spawn_pos_tries[of ?near 3 demo_ports "7 / 10" 0] m1 n1
          free_random_spawn_pos_tries[of ?far 3 demo_ports "7 / 10" 0] m2 n2
          free_random_spawn_pos_tries[of ?near "- 4" demo_ports "7 / 10" 0]
    by simp
qed

text \<open>
  Claim C4 as stated fails at \<open>n_tries = 0\<close>: all of the (zero) draws the claim speaks of are
  occupied, so it has NoPositionFound raised after no draw at all. The code draws one candidate:
  with no live agent it returns that candidate, and with a live agent on top of it it raises only
  after that draw.
\<close>

theorem free_random_spawn_pos_zero_tries:
  "fst (free_random_spawn_pos demo_ports (demo_state (demo_pair False) []) (7 / 10) 0) =
     Inr (Vector3 0 0 (1 / 2)) \<and>
   random_used (snd (free_random_spawn_pos demo_ports (demo_state (demo_pair False) []) (7 / 10) 0)) = 2 \<and>
   fst (free_random_spawn_pos demo_ports (demo_state (demo_pair False) [0, 1]) (7 / 10) 0) =
     Inl NoPositionFound \<and>
   random_used (snd (free_random_spawn_pos demo_ports (demo_state (demo_pair False) [0, 1]) (7 / 10) 0)) = 2"
proof -
  have a: "free_random_spawn_pos demo_ports (demo_state (demo_pair False) []) (7 / 10) 0 =
             (Inr (Vector3 0 0 (1 / 2)), (demo_state (demo_pair False) [])\<lparr>random_used := 2\<rparr>)"
    unfolding free_random_spawn_pos_def
    by (subst free_random_spawn_pos_loop.simps)
       (simp add: random_spawn_pos_def is_pos_occupied_def demo_ports_def Z_SPAWN_DISTANCE_def)
  have b: "free_random_spawn_pos demo_ports (demo_state (demo_pair False) [0, 1]) (7 / 10) 0 =
             (Inl NoPositionFound, (demo_state (demo_pair False) [0, 1])\<lparr>random_used := 2\<rparr>)"
    unfolding free_random_spawn_pos_def
    by (subst free_random_spawn_pos_loop.simps)
       (simp add: random_spawn_pos_def is_pos_occupied_def demo_ports_def Z_SPAWN_DISTANCE_def
          distance_to_def pos_def vsub_def vnorm_def demo_pair_def demo_individual_def
          demo_manager_def)
  show ?thesis
    using a b by simp
qed

subsection \<open>The offspring block of the mating phase\<close>

lemma free_random_spawn_pos_loop_frame:
  "\<exists>u. snd (free_random_spawn_pos_loop P st d n p i) = st\<lparr>random_used := u\<rparr>"
proof (induction P st d n p i rule: free_random_spawn_pos_loop.induct)
  case (1 P st d n p i)
  show ?case
  proof (cases "is_pos_occupied st p d")
    case (Inl e)
    have "st = st\<lparr>random_used := random_used st\<rparr>"
      by simp
    then show ?thesis
      using Inl by (subst free_random_spawn_pos_loop.simps) (auto intro: exI[of _ "random_used st"])
  next
    case (Inr occupied)
    show ?thesis
    proof (cases "occupied \<and> \<not> i + 1 > n")
      case True
      obtain u where
        "snd (free_random_spawn_pos_loop P (snd (random_spawn_pos P st)) d n
                (fst (random_spawn_pos P st)) (i + 1)) = (snd (random_spawn_pos P st))\<lparr>random_used := u\<rparr>"
        using "1.IH"[OF Inr] True by blast
      then show ?thesis
        using Inr True
        by (subst free_random_spawn_pos_loop.simps) (auto simp: random_spawn_pos_def)
    next
      case False
      have "st = st\<lparr>random_used := random_used st\<rparr>"
        by simp
      then show ?thesis
        using Inr False
        by (subst free_random_spawn_pos_loop.simps) (auto intro: exI[of _ "random_used st"])
    qed
  qed
qed

lemma free_random_spawn_pos_frame:
  "free_random_spawn_pos P st d n = (res, st') \<Longrightarrow>
     st' = st\<lparr>random_used := random_used st'\<rparr>"
proof -
  assume a: "free_random_spawn_pos P st d n = (res, st')"
  obtain u where "st' = (snd (random_spawn_pos P st))\<lparr>random_used := u\<rparr>"
    using free_random_spawn_pos_loop_frame
            [of P "snd (random_spawn_pos P st)" d n "fst (random_spawn_pos P st)" 1] a
    by (auto simp: free_random_spawn_pos_def)
  then show ?thesis
    by (simp add: random_spawn_pos_def)
qed

lemma register_offspring_fields [simp]:
  "recent_children (register_offspring st c) = recent_children st @ [c]"
  "robots (register_offspring st c) = robots st"
  "connection (register_offspring st c) = connection st"
  "logged (register_offspring st c) = logged st"
  "data_folder (register_offspring st c) = data_folder st"
  "robot_id_counter (register_offspring st c) = robot_id_counter st + 1"
  "manager (objs (register_offspring st c) r) = manager (objs st r)"
  "max_age (objs (register_offspring st c) r) = max_age (objs st r)"
  "genotype_id (genotype (objs (register_offspring st c) c)) = Some (robot_id_counter st + 1)"
  by (simp_all add: register_offspring_def Let_def)

text \<open>
  The offspring block on its own, for whatever individual it is handed: the individual is
  appended to \<^verbatim>\<open>_recent_children\<close> before the placement is tried and stays there; when the
  placement raises NoPositionFound the block returns normally with the live list and the
  connection as before; when it returns a position the individual is appended to the live list
  and inserted into the simulator there. (No run of \<^verbatim>\<open>mating_season\<close> reaches this block, see
  claim C3 below.)
\<close>

lemma mating_offspring_effects:
  "recent_children (register_offspring st c) = recent_children st @ [c] \<and>
   recent_children (snd (mating_offspring P st a b c)) = recent_children st @ [c] \<and>
   (fst (free_random_spawn_pos P (register_offspring st c) (float_add P MATE_DISTANCE ONE_TENTH) 100)
       = Inl NoPositionFound \<longrightarrow>
      fst (mating_offspring P st a b c) = Inr () \<and>
      robots (snd (mating_offspring P st a b c)) = robots st \<and>
      connection (snd (mating_offspring P st a b c)) = connection st \<and>
      manager (objs (snd (mating_offspring P st a b c)) c) = manager (objs st c) \<and>
      logged (snd (mating_offspring P st a b c)) =
        logged st @ [Log INFO ''Space is too crowded! Cannot insert the new individual, giving up.'' []]) \<and>
   (fst (free_random_spawn_pos P (register_offspring st c) (float_add P MATE_DISTANCE ONE_TENTH) 100)
       = Inr p \<longrightarrow>
      fst (mating_offspring P st a b c) = Inr () \<and>
      robots (snd (mating_offspring P st a b c)) = robots st @ [c] \<and>
      connection (snd (mating_offspring P st a b c)) =
        connection st @ [Insert_robot c p (max_age (objs st c))] \<and>
      manager (objs (snd (mating_offspring P st a b c)) c) =
        Some (insert_robot P (length (connection st)) p (max_age (objs st c))))"
proof -
  let ?st = "register_offspring st c"
  obtain res st4 where f: "free_random_spawn_pos P ?st (float_add P MATE_DISTANCE ONE_TENTH) 100 = (res, st4)"
    by (cases "free_random_spawn_pos P ?st (float_add P MATE_DISTANCE ONE_TENTH) 100")
  have st4: "st4 = ?st\<lparr>random_used := random_used st4\<rparr>"
    using free_random_spawn_pos_frame[OF f] .
  have fields: "recent_children st4 = recent_children st @ [c]" "robots st4 = robots st"
    "connection st4 = connection st" "logged st4 = logged st"
    "manager (objs st4 c) = manager (objs st c)" "max_age (objs st4 c) = max_age (objs st c)"
    by (subst st4, simp)+
  show ?thesis
  proof (cases res)
    case (Inl e)
    then show ?thesis
      using f fields by (simp add: mating_offspring_def log_line_def)
  next
    case (Inr q)
    then show ?thesis
      using f fields
      by (simp add: mating_offspring_def log_line_def insert_individual_def export_def Let_def)
  qed
qed

subsection \<open>The death phase\<close>

text \<open>
  Claim C2. The death phase does not scan a snapshot: it iterates over \<^verbatim>\<open>self._robots\<close> while
  \<^verbatim>\<open>_remove_individual\<close> removes from that list, so the individual that follows a removed one
  moves into the slot the iterator has just left and is never looked at. With a live list of two
  distinct individuals, both reported dead by their handles, the phase returns having removed,
  exported and unregistered the first only: the second is still live, and still dead.
\<close>

theorem death_season_skips_after_removal:
  assumes "robots st = [a, b]" and "a \<noteq> b"
      and "manager (objs st a) = Some ma" and "dead ma"
      and "manager (objs st b) = Some mb" and "dead mb"
  shows "fst (death_season st) = Inr () \<and>
         robots (snd (death_season st)) = [b] \<and>
         manager (objs (snd (death_season st)) b) = Some mb \<and>
         connection (snd (death_season st)) = connection st @ [Unregister_robot (name ma)] \<and>
         data_folder (snd (death_season st)) =
           data_folder st @ [Genotype_file a, Phenotype_file a, Life_file a]"
proof -
  let ?st1 = "snd (death_season_step st 0)"
  have step: "death_season_step st 0 =
     (Inr (), st\<lparr>logged := logged st @ [Log DEBUG ''Attempting ROBOT DIES OF OLD AGE'' [a],
                                       Log INFO ''ROBOT DIES OF OLD AGE'' [a]],
                 robots := [b],
                 data_folder := data_folder st @ [Genotype_file a, Phenotype_file a, Life_file a],
                 connection := connection st @ [Unregister_robot (name ma)]\<rparr>)"
    using assms(1-4)
    by (simp add: death_season_step_def remove_individual_def export_def log_line_def Let_def)
  have "death_season st = death_season_loop ?st1 1"
    unfolding death_season_def using assms(1) step
    by (subst death_season_loop.simps) simp
  also have "\<dots> = (Inr (), ?st1)"
    using step by (subst death_season_loop.simps) simp
  finally show ?thesis
    using step assms(5) by simp
qed

theorem death_season_skips_after_removal_witness:
  "robots (snd (death_season (demo_state (demo_pair True) [0, 1]))) = [1] \<and>
   (\<exists>m. manager (objs (snd (death_season (demo_state (demo_pair True) [0, 1]))) 1) = Some m \<and> dead m) \<and>
   connection (snd (death_season (demo_state (demo_pair True) [0, 1]))) = [Unregister_robot ''a'']"
proof -
  let ?st = "demo_state (demo_pair True) [0, 1]"
  have 1: "robots ?st = [0, 1]" by simp
  have 2: "(0::nat) \<noteq> 1" by simp
  have 3: "manager (objs ?st 0) = Some (demo_manager ''a'' (Vector3 0 0 0) True)"
    by (simp add: demo_pair_def demo_individual_def)
  have 4: "dead (demo_manager ''a'' (Vector3 0 0 0) True)"
    by (simp add: demo_manager_def)
  have 5: "manager (objs ?st 1) = Some (demo_manager ''b'' (Vector3 0 0 0) True)"
    by (simp add: demo_pair_def demo_individual_def)
  have 6: "dead (demo_manager ''b'' (Vector3 0 0 0) True)"
    by (simp add: demo_manager_def)
  show ?thesis
    using death_season_skips_after_removal[OF 1 2 3 4 5 6] 6
    by (simp add: demo_manager_def)
qed

subsection \<open>The immigration phase\<close>

lemma generate_insert_random_robot_robots:
  "generate_insert_random_robot P st i = (res, st') \<Longrightarrow> robots st' = robots st"
  by (auto simp: generate_insert_random_robot_def OnlineIndividual_init_def Let_def
           split: prod.splits sum.splits
           dest!: free_random_spawn_pos_robots insert_individual_robots)

lemma insert_individual_counter:
  "robot_id_counter (snd (insert_individual P st r p)) = robot_id_counter st"
  by (simp add: insert_individual_def export_def Let_def split: option.splits)

lemma generate_insert_random_robot_counter:
  "robot_id_counter (snd (generate_insert_random_robot P st i)) = robot_id_counter st"
proof -
  let ?obj = "\<lparr>genotype = random_initialization P i, manager = None,
               max_age = gauss P (random_used st) INDIVIDUAL_MAX_AGE INDIVIDUAL_MAX_AGE_SIGMA\<rparr>"
  let ?st2 = "st\<lparr>random_used := random_used st + 1,
                 objs := (objs st)(next_ref st := ?obj), next_ref := next_ref st + 1\<rparr>"
  obtain res st3 where f: "free_random_spawn_pos P ?st2 (float_add P MATE_DISTANCE ONE_TENTH) 100 = (res, st3)"
    by (cases "free_random_spawn_pos P ?st2 (float_add P MATE_DISTANCE ONE_TENTH) 100")
  have "st3 = ?st2\<lparr>random_used := random_used st3\<rparr>"
    by (rule free_random_spawn_pos_frame[OF f])
  then have "robot_id_counter st3 = robot_id_counter ?st2"
    by (metis state.select_convs(5) state.surjective state.update_convs(3))
  then have c: "robot_id_counter st3 = robot_id_counter st"
    by simp
  show ?thesis
  proof (cases res)
    case (Inl e)
    then show ?thesis
      using f c by (simp add: generate_insert_random_robot_def OnlineIndividual_init_def Let_def)
  next
    case (Inr q)
    then show ?thesis
      using f c insert_individual_counter[of P st3 "next_ref st" q]
      by (simp add: generate_insert_random_robot_def OnlineIndividual_init_def Let_def)
  qed
qed

lemma immigration_season_step_cases:
  assumes "immigration_season_step P st = (res, st')"
  shows "(res = Inr () \<and> (robots st' = robots st \<or> (\<exists>r. robots st' = robots st @ [r]))) \<or>
         (\<exists>e. res = Inl e \<and> e \<noteq> NoPositionFound \<and> robots st' = robots st)"
proof -
  let ?st2 = "log_line DEBUG ''Attempting LOW REACHED'' [] (st\<lparr>robot_id_counter := robot_id_counter st + 1\<rparr>)"
  obtain r st3 where g: "generate_insert_random_robot P ?st2 (robot_id_counter ?st2) = (r, st3)"
    by (cases "generate_insert_random_robot P ?st2 (robot_id_counter ?st2)")
  have "robots st3 = robots st"
    using generate_insert_random_robot_robots[OF g] by (simp add: log_line_def)
  then show ?thesis
    using assms g
    by (cases r) (auto simp: immigration_season_step_def Let_def log_line_def split: if_splits)
qed

lemma immigration_season_returns:
  "immigration_season fuel P st pm = Some (Inr u, st') \<Longrightarrow> pm \<le> int (length (robots st'))"
proof (induction fuel arbitrary: st)
  case 0
  then show ?case
    by (simp split: if_splits)
next
  case (Suc fuel)
  show ?case
  proof (cases "int (length (robots st)) < pm")
    case False
    then show ?thesis
      using Suc.prems by simp
  next
    case True
    show ?thesis
    proof (cases "fst (immigration_season_step P st)")
      case (Inl e)
      then show ?thesis
        using Suc.prems True by (cases "immigration_season_step P st") simp
    next
      case (Inr v)
      then have "immigration_season fuel P (snd (immigration_season_step P st)) pm = Some (Inr u, st')"
        using Suc.prems True by simp
      then show ?thesis
        by (rule Suc.IH)
    qed
  qed
qed

lemma immigration_season_raises:
  "immigration_season fuel P st pm = Some (Inl e, st') \<Longrightarrow> e \<noteq> NoPositionFound"
proof (induction fuel arbitrary: st)
  case 0
  then show ?case
    by (simp split: if_splits)
next
  case (Suc fuel)
  show ?case
  proof (cases "int (length (robots st)) < pm")
    case False
    then show ?thesis
      using Suc.prems by simp
  next
    case True
    show ?thesis
    proof (cases "fst (immigration_season_step P st)")
      case (Inl e')
      then have "immigration_season_step P st = (Inl e, st')"
        using Suc.prems True by simp
      then show ?thesis
        using immigration_season_step_cases[of P st "Inl e" st'] by simp
    next
      case (Inr v)
      then have "immigration_season fuel P (snd (immigration_season_step P st)) pm = Some (Inl e, st')"
        using Suc.prems True by simp
      then show ?thesis
        by (rule Suc.IH)
    qed
  qed
qed

lemma immigration_season_step_caught:
  assumes "fst (generate_insert_random_robot P
             (log_line DEBUG ''Attempting LOW REACHED'' [] (st\<lparr>robot_id_counter := robot_id_counter st + 1\<rparr>))
             (robot_id_counter st + 1)) = Inl NoPositionFound"
  shows "fst (immigration_season_step P st) = Inr () \<and>
         robots (snd (immigration_season_step P st)) = robots st \<and>
         robot_id_counter (snd (immigration_season_step P st)) = robot_id_counter st + 1"
proof -
  let ?st2 = "log_line DEBUG ''Attempting LOW REACHED'' [] (st\<lparr>robot_id_counter := robot_id_counter st + 1\<rparr>)"
  obtain r st3 where g: "generate_insert_random_robot P ?st2 (robot_id_counter st + 1) = (r, st3)"
    by (cases "generate_insert_random_robot P ?st2 (robot_id_counter st + 1)")
  have r: "r = Inl NoPositionFound"
    using assms g by simp
  have 1: "robots st3 = robots st"
    using generate_insert_random_robot_robots[OF g] by (simp add: log_line_def)
  have "robot_id_counter st3 = robot_id_counter ?st2"
    using generate_insert_random_robot_counter[of P ?st2 "robot_id_counter st + 1"] g by simp
  then have 2: "robot_id_counter st3 = robot_id_counter st + 1"
    by (simp add: log_line_def)
  have c: "robot_id_counter ?st2 = robot_id_counter st + 1"
    by (simp add: log_line_def)
  show ?thesis
    using g r 1 2 by (simp add: immigration_season_step_def Let_def c)
qed

lemma insert_individual_fst: "fst (insert_individual P st r p) = Inr r"
  by (simp add: insert_individual_def export_def Let_def)

lemma live_wf_all_managed: "live_wf st \<Longrightarrow> all_managed st"
  by (simp add: live_wf_def all_managed_def list_all_iff)

lemma all_managed_random_used [simp]: "all_managed (st\<lparr>random_used := u\<rparr>) = all_managed st"
  by (simp add: all_managed_def)

lemma free_random_spawn_pos_loop_managed:
  "all_managed st \<Longrightarrow>
     (\<exists>q. fst (free_random_spawn_pos_loop P st d n p i) = Inr q) \<or>
     fst (free_random_spawn_pos_loop P st d n p i) = Inl NoPositionFound"
proof (induction P st d n p i rule: free_random_spawn_pos_loop.induct)
  case (1 P st d n p i)
  have occ: "is_pos_occupied st p d = Inr (near_live_agent st p d)"
    using "1.prems" by (rule is_pos_occupied_managed)
  show ?case
  proof (cases "near_live_agent st p d \<and> \<not> i + 1 > n")
    case True
    have m: "all_managed (snd (random_spawn_pos P st))"
      using "1.prems" by (simp add: random_spawn_pos_snd)
    have eq: "free_random_spawn_pos_loop P st d n p i =
            free_random_spawn_pos_loop P (snd (random_spawn_pos P st)) d n
              (fst (random_spawn_pos P st)) (i + 1)"
      using occ True by (subst free_random_spawn_pos_loop.simps) simp
    show ?thesis
      unfolding eq using "1.IH"[OF occ _ _ m] True by simp
  next
    case False
    then show ?thesis
      using occ by (subst free_random_spawn_pos_loop.simps, subst free_random_spawn_pos_loop.simps) auto
  qed
qed

lemma free_random_spawn_pos_managed:
  assumes "all_managed st" and "free_random_spawn_pos P st d n = (res, st')"
  shows "(\<exists>q. res = Inr q) \<or> res = Inl NoPositionFound"
proof -
  have "all_managed (snd (random_spawn_pos P st))"
    using assms(1) by (simp add: random_spawn_pos_snd)
  then show ?thesis
    using free_random_spawn_pos_loop_managed
            [of "snd (random_spawn_pos P st)" P d n "fst (random_spawn_pos P st)" 1] assms(2)
    by (simp add: free_random_spawn_pos_def)
qed

lemma immigration_season_step_wf:
  assumes "live_wf st"
  shows "fst (immigration_season_step P st) = Inr () \<and> live_wf (snd (immigration_season_step P st))"
proof -
  let ?st1 = "log_line DEBUG ''Attempting LOW REACHED'' [] (st\<lparr>robot_id_counter := robot_id_counter st + 1\<rparr>)"
  let ?obj = "\<lparr>genotype = random_initialization P (robot_id_counter ?st1), manager = None,
               max_age = gauss P (random_used ?st1) INDIVIDUAL_MAX_AGE INDIVIDUAL_MAX_AGE_SIGMA\<rparr>"
  let ?st2 = "?st1\<lparr>random_used := random_used ?st1 + 1,
                 objs := (objs ?st1)(next_ref ?st1 := ?obj), next_ref := next_ref ?st1 + 1\<rparr>"
  have wf2: "live_wf ?st2"
    using assms by (auto simp: live_wf_def log_line_def list_all_iff)
  obtain res st3 where f: "free_random_spawn_pos P ?st2 (float_add P MATE_DISTANCE ONE_TENTH) 100 = (res, st3)"
    by (cases "free_random_spawn_pos P ?st2 (float_add P MATE_DISTANCE ONE_TENTH) 100")
  have st3: "st3 = ?st2\<lparr>random_used := random_used st3\<rparr>"
    by (rule free_random_spawn_pos_frame[OF f])
  have wf3: "live_wf st3"
    by (subst st3) (use wf2 in \<open>simp add: live_wf_def\<close>)
  have r3: "robots st3 = robots st" "next_ref st3 = next_ref st + 1"
    by (subst st3, simp add: log_line_def)+
  have g: "generate_insert_random_robot P ?st1 (robot_id_counter ?st1) =
             (case res of Inl e \<Rightarrow> (Inl e, st3)
              | Inr p \<Rightarrow> insert_individual P st3 (next_ref st) p)"
    using f by (simp add: generate_insert_random_robot_def OnlineIndividual_init_def Let_def log_line_def
                  split: sum.splits)
  consider (found) q where "res = Inr q" | (none) "res = Inl NoPositionFound"
    using free_random_spawn_pos_managed[OF live_wf_all_managed[OF wf2] f] by blast
  then show ?thesis
  proof cases
    case none
    then show ?thesis
      using g wf3 by (simp add: immigration_season_step_def Let_def)
  next
    case found
    have "live_wf ((snd (insert_individual P st3 (next_ref st) q))
                     \<lparr>robots := robots st3 @ [next_ref st]\<rparr>)"
      using wf3 r3
      by (auto simp: live_wf_def insert_individual_def export_def Let_def list_all_iff)
    then show ?thesis
      using g found insert_individual_fst[of P st3 "next_ref st" q]
            insert_individual_robots[of P st3 "next_ref st" q "fst (insert_individual P st3 (next_ref st) q)"
               "snd (insert_individual P st3 (next_ref st) q)"]
      by (cases "insert_individual P st3 (next_ref st) q")
         (simp add: immigration_season_step_def Let_def log_line_def live_wf_def)
  qed
qed

lemma immigration_season_no_raise:
  "live_wf st \<Longrightarrow> immigration_season fuel P st pm \<noteq> Some (Inl e, st')"
proof (induction fuel arbitrary: st)
  case 0
  then show ?case by simp
next
  case (Suc fuel)
  have s: "fst (immigration_season_step P st) = Inr ()" "live_wf (snd (immigration_season_step P st))"
    using immigration_season_step_wf[OF Suc.prems] by simp_all
  show ?case
    using Suc.IH[OF s(2)] s(1) by simp
qed

text \<open>
  Claim C9. Whenever the immigration phase returns, the live count is at least the minimum it
  was called with. NoPositionFound never leaves the phase: when the insertion attempt of a pass
  raises it, the pass ends normally with the live list as it was (the attempt is discarded, the
  id it took stays taken), and a pass that ends normally below the minimum is followed by
  another pass. On a well-formed live list no pass raises anything, so the phase can end in no
  other way than by its loop condition. The phase is run with fuel, a bound on the number of passes, since nothing
  bounds them in the code: the property holds for every amount of fuel.
\<close>

theorem immigration_season_reaches_minimum:
  "(immigration_season fuel P st pm = Some (Inr u, st') \<longrightarrow> pm \<le> int (length (robots st'))) \<and>
   immigration_season fuel P st pm \<noteq> Some (Inl NoPositionFound, st') \<and>
   (fst (generate_insert_random_robot P
           (log_line DEBUG ''Attempting LOW REACHED'' []
              (st\<lparr>robot_id_counter := robot_id_counter st + 1\<rparr>))
           (robot_id_counter st + 1)) = Inl NoPositionFound \<longrightarrow>
      fst (immigration_season_step P st) = Inr () \<and>
      robots (snd (immigration_season_step P st)) = robots st \<and>
      robot_id_counter (snd (immigration_season_step P st)) = robot_id_counter st + 1) \<and>
   (int (length (robots st)) < pm \<and> fst (immigration_season_step P st) = Inr () \<longrightarrow>
      immigration_season (Suc fuel) P st pm =
        immigration_season fuel P (snd (immigration_season_step P st)) pm) \<and>
   (live_wf st \<longrightarrow> immigration_season fuel P st pm \<noteq> Some (Inl e, st'))"
  using immigration_season_returns[of fuel P st pm u st']
        immigration_season_raises[of fuel P st pm NoPositionFound st']
        immigration_season_step_caught[of P st]
        immigration_season_no_raise[of st fuel P pm e st']
  by auto

lemma free_random_spawn_pos_empty:
  "free_random_spawn_pos P st d n = (res, st') \<Longrightarrow> robots st = [] \<Longrightarrow> \<exists>p. res = Inr p"
  by (auto simp: free_random_spawn_pos_def loop_free is_pos_occupied_def)

lemma generate_insert_random_robot_empty:
  assumes "robots st = []"
  shows "fst (generate_insert_random_robot P st i) = Inr (next_ref st)"
proof -
  let ?obj = "\<lparr>genotype = random_initialization P i, manager = None,
               max_age = gauss P (random_used st) INDIVIDUAL_MAX_AGE INDIVIDUAL_MAX_AGE_SIGMA\<rparr>"
  let ?st2 = "st\<lparr>random_used := random_used st + 1,
                 objs := (objs st)(next_ref st := ?obj), next_ref := next_ref st + 1\<rparr>"
  obtain res st3 where f: "free_random_spawn_pos P ?st2 (float_add P MATE_DISTANCE ONE_TENTH) 100 = (res, st3)"
    by (cases "free_random_spawn_pos P ?st2 (float_add P MATE_DISTANCE ONE_TENTH) 100")
  have "robots ?st2 = []"
    using assms by simp
  then obtain q where "res = Inr q"
    using free_random_spawn_pos_empty[OF f] by blast
  then show ?thesis
    using f insert_individual_fst[of P st3 "next_ref st" q]
    by (simp add: generate_insert_random_robot_def OnlineIndividual_init_def Let_def)
qed

lemma immigration_season_step_empty:
  assumes "robots st = []"
  shows "fst (immigration_season_step P st) = Inr () \<and>
         robots (snd (immigration_season_step P st)) = [next_ref st]"
proof -
  let ?st2 = "log_line DEBUG ''Attempting LOW REACHED'' [] (st\<lparr>robot_id_counter := robot_id_counter st + 1\<rparr>)"
  obtain r st3 where g: "generate_insert_random_robot P ?st2 (robot_id_counter ?st2) = (r, st3)"
    by (cases "generate_insert_random_robot P ?st2 (robot_id_counter ?st2)")
  have e: "robots ?st2 = []" and n: "next_ref ?st2 = next_ref st"
    using assms by (simp_all add: log_line_def)
  have r: "r = Inr (next_ref st)"
    using generate_insert_random_robot_empty[OF e, of P "robot_id_counter ?st2"] g n by simp
  have "robots st3 = []"
    using generate_insert_random_robot_robots[OF g] e by simp
  then show ?thesis
    using g r by (simp add: immigration_season_step_def Let_def log_line_def)
qed

theorem immigration_season_reaches_minimum_witness:
  "immigration_season (Suc 0) demo_ports (demo_state (demo_pair False) []) 1 =
     Some (Inr (), snd (immigration_season_step demo_ports (demo_state (demo_pair False) []))) \<and>
   robots (snd (immigration_season_step demo_ports (demo_state (demo_pair False) []))) = [100] \<and>
   1 \<le> int (length (robots (snd (immigration_season_step demo_ports (demo_state (demo_pair False) [])))))"
proof -
  let ?st = "demo_state (demo_pair False) []"
  have g: "fst (immigration_season_step demo_ports ?st) = Inr () \<and>
           robots (snd (immigration_season_step demo_ports ?st)) = [100]"
    using immigration_season_step_empty[of ?st demo_ports] by simp
  have r: "immigration_season (Suc 0) demo_ports ?st 1 =
             Some (Inr (), snd (immigration_season_step demo_ports ?st))"
    using g by (cases "immigration_season_step demo_ports ?st") simp
  show ?thesis
    using immigration_season_reaches_minimum
            [of "Suc 0" demo_ports ?st 1 "()" "snd (immigration_season_step demo_ports ?st)" TypeError] r g
    by simp
qed

subsection \<open>The mating phase on a consenting pair\<close>





subsection \<open>The mating phase and the population cap\<close>

lemma mating_pair_above_cap:
  "MAX_POP < length (robots st) \<Longrightarrow> mating_pair P st a b = (Inl BreakIt, st)"
  by (simp add: mating_pair_def)

lemma mating_inner_raise:
  "j < length (robots st) \<Longrightarrow> fst (mating_pair P st a (robots st ! j)) = Inl e \<Longrightarrow>
     mating_inner P st a j = mating_pair P st a (robots st ! j)"
  by (subst mating_inner.simps) simp

lemma mating_outer_raise:
  "i < length (robots st) \<Longrightarrow> mature (objs st (robots st ! i)) \<Longrightarrow>
   fst (mating_inner P st (robots st ! i) 0) = Inl e \<Longrightarrow>
     mating_outer P st i = mating_inner P st (robots st ! i) 0"
  by (subst mating_outer.simps) simp

lemma mating_outer_length:
  "length (robots st) \<le> length (robots (snd (mating_outer P st i))) \<and>
   length (robots (snd (mating_outer P st i))) \<le> max (length (robots st)) (MAX_POP + 1)"
proof (induction P st i rule: mating_outer.induct)
  case (1 P st i)
  show ?case
  proof (cases "i < length (robots st)")
    case False
    then show ?thesis
      by (subst mating_outer.simps, subst mating_outer.simps) simp
  next
    case True
    note i = this
    show ?thesis
    proof (cases "mature (objs st (robots st ! i))")
      case False
      then have eq: "mating_outer P st i = mating_outer P st (i + 1)"
        using i by (subst mating_outer.simps) simp
      show ?thesis
        unfolding eq using "1.IH"(1)[OF i] False by simp
    next
      case True
      note m = this
      let ?r = "mating_inner P st (robots st ! i) 0"
      show ?thesis
      proof (cases "fst ?r")
        case (Inl e)
        then have "mating_outer P st i = ?r"
          using i m by (subst mating_outer.simps) simp
        then show ?thesis
          using mating_inner_length[of st P "robots st ! i" 0] by simp
      next
        case (Inr u)
        then have eq: "mating_outer P st i = mating_outer P (snd ?r) (i + 1)"
          using i m by (subst mating_outer.simps) simp
        have ih: "length (robots (snd ?r)) \<le> length (robots (snd (mating_outer P (snd ?r) (i + 1)))) \<and>
                  length (robots (snd (mating_outer P (snd ?r) (i + 1))))
                    \<le> max (length (robots (snd ?r))) (MAX_POP + 1)"
          using "1.IH"(2)[OF i _ Inr] m by simp
        show ?thesis
          unfolding eq using ih mating_inner_length[of st P "robots st ! i" 0] by linarith
      qed
    qed
  qed
qed

text \<open>
  Claim C7. The body of the inner loop tests the cap before anything else, so no \<^verbatim>\<open>mate\<close> is
  attempted on a live list longer than MAX_POP: there the body raises BreakIt with the state
  untouched, and so does the test made before the loops, which makes the whole phase return at
  once. A BreakIt raised by the body ends the inner loop and the outer loop with the state in
  which it was raised, and it never leaves the phase. The offspring block appends at most one
  individual to the live list, and the phase never shortens the list and never leaves it longer
  than the larger of its starting length and MAX_POP + 1. (The bound is derived from the cap
  test and the growth of the offspring block; it does not rest on the failure of \<^verbatim>\<open>mate\<close>
  recorded under claim C1.)
\<close>

theorem mating_season_population_cap:
  "(MAX_POP < length (robots st) \<longrightarrow>
      mating_season P st = (Inr (), st) \<and> mating_pair P st a b = (Inl BreakIt, st)) \<and>
   (j < length (robots st) \<and> fst (mating_pair P st a (robots st ! j)) = Inl BreakIt \<longrightarrow>
      mating_inner P st a j = mating_pair P st a (robots st ! j)) \<and>
   (i < length (robots st) \<and> mature (objs st (robots st ! i)) \<and>
    fst (mating_inner P st (robots st ! i) 0) = Inl BreakIt \<longrightarrow>
      mating_outer P st i = mating_inner P st (robots st ! i) 0) \<and>
   fst (mating_season P st) \<noteq> Inl BreakIt \<and>
   (robots (snd (mating_offspring P st a b c)) = robots st \<or>
    robots (snd (mating_offspring P st a b c)) = robots st @ [c]) \<and>
   length (robots st) \<le> length (robots (snd (mating_season P st))) \<and>
   length (robots (snd (mating_season P st))) \<le> max (length (robots st)) (MAX_POP + 1)"
proof -
  have 1: "MAX_POP < length (robots st) \<longrightarrow>
      mating_season P st = (Inr (), st) \<and> mating_pair P st a b = (Inl BreakIt, st)"
    by (simp add: mating_season_def mating_pair_def)
  have 2: "fst (mating_season P st) \<noteq> Inl BreakIt"
    by (auto simp: mating_season_def Let_def split: sum.splits)
  have 3: "robots (snd (mating_offspring P st a b c)) = robots st \<or>
           robots (snd (mating_offspring P st a b c)) = robots st @ [c]"
    using mating_offspring_robots[of P st a b c "fst (mating_offspring P st a b c)"
            "snd (mating_offspring P st a b c)"] by simp
  have 4: "length (robots st) \<le> length (robots (snd (mating_season P st))) \<and>
           length (robots (snd (mating_season P st))) \<le> max (length (robots st)) (MAX_POP + 1)"
    using mating_outer_length[of st P 0]
    by (auto simp: mating_season_def Let_def split: sum.splits)
  show ?thesis
    using 1 2 3 4 mating_inner_raise[of j st P a BreakIt] mating_outer_raise[of i st P BreakIt]
    by blast
qed

theorem mating_season_population_cap_witness:
  "mating_season demo_ports (demo_state (demo_pair False) (replicate 101 0)) =
     (Inr (), demo_state (demo_pair False) (replicate 101 0)) \<and>
   mating_pair demo_ports (demo_state (demo_pair False) (replicate 101 0)) 0 1 =
     (Inl BreakIt, demo_state (demo_pair False) (replicate 101 0)) \<and>
   mating_inner demo_ports (demo_state (demo_pair False) (replicate 101 0)) 0 0 =
     (Inl BreakIt, demo_state (demo_pair False) (replicate 101 0)) \<and>
   mating_outer demo_ports (demo_state (demo_pair False) (replicate 101 0)) 0 =
     (Inl BreakIt, demo_state (demo_pair False) (replicate 101 0)) \<and>
   length (robots (snd (mating_season demo_ports (demo_state (demo_pair False) [0, 1])))) \<le> 101"
proof -
  let ?big = "demo_state (demo_pair False) (replicate 101 0)"
  let ?two = "demo_state (demo_pair False) [0, 1]"
  have len: "MAX_POP < length (robots ?big)" "0 < length (robots ?big)"
    by (simp_all add: MAX_POP_def)
  have first: "robots ?big ! 0 = 0"
    by simp
  have m: "mature (objs ?big (robots ?big ! 0))"
    by (simp add: mature_def age_def demo_pair_def demo_individual_def demo_manager_def MATURE_AGE_def)
  have p: "mating_pair demo_ports ?big 0 (robots ?big ! 0) = (Inl BreakIt, ?big)"
    using len by (simp add: mating_pair_def)
  have p1: "mating_pair demo_ports ?big 0 1 = (Inl BreakIt, ?big)"
    using mating_season_population_cap[of ?big demo_ports 0 1 0 0 0] len by simp
  have inner: "mating_inner demo_ports ?big 0 0 = (Inl BreakIt, ?big)"
    using mating_season_population_cap[of ?big demo_ports 0 1 0 0 0] len p by simp
  have outer: "mating_outer demo_ports ?big 0 = (Inl BreakIt, ?big)"
    using mating_season_population_cap[of ?big demo_ports 0 1 0 0 0] len m inner first by simp
  have season: "mating_season demo_ports ?big = (Inr (), ?big)"
    using mating_season_population_cap[of ?big demo_ports 0 1 0 0 0] len by simp
  have two: "length (robots (snd (mating_season demo_ports ?two))) \<le> 101"
    using mating_season_population_cap[of ?two demo_ports 0 1 0 0 0]
    by (simp add: MAX_POP_def)
  show ?thesis
    using p1 inner outer season two by simp
qed

end
